theory Spec2Isabelle
  imports Main
begin

unbundle bit_operations_syntax

section \<open>Feature flags\<close>

text \<open>
  \<^verbatim>\<open>type Flag int\<close>. Go's \<^verbatim>\<open>int\<close> is a two's complement integer of the platform's
  width; the only operations the program applies to a flag are \<^verbatim>\<open>&\<close> and \<^verbatim>\<open>==\<close>, which on
  \<^typ>\<open>int\<close> (two's complement with infinite sign extension) give the machine's result for
  every value of either width.
\<close>

type_synonym Flag = int

text \<open>The constant block \<^verbatim>\<open>FlagACPI Flag = 1 << iota\<close>: one bit per constant, in order.\<close>

definition FlagACPI :: Flag where "FlagACPI = push_bit 0 1"
definition FlagIOAPIC :: Flag where "FlagIOAPIC = push_bit 1 1"
definition FlagRTCUseUTC :: Flag where "FlagRTCUseUTC = push_bit 2 1"
definition FlagCPUHotplug :: Flag where "FlagCPUHotplug = push_bit 3 1"
definition FlagPAE :: Flag where "FlagPAE = push_bit 4 1"
definition FlagLongMode :: Flag where "FlagLongMode = push_bit 5 1"
definition FlagHPET :: Flag where "FlagHPET = push_bit 6 1"
definition FlagHWvirtEx :: Flag where "FlagHWvirtEx = push_bit 7 1"
definition FlagTripleRaultReset :: Flag where "FlagTripleRaultReset = push_bit 8 1"
definition FlagNestedPaging :: Flag where "FlagNestedPaging = push_bit 9 1"
definition FlagLargePages :: Flag where "FlagLargePages = push_bit 10 1"
definition FlagVTXVPID :: Flag where "FlagVTXVPID = push_bit 11 1"
definition FlagVTXUX :: Flag where "FlagVTXUX = push_bit 12 1"
definition FlagAccelerate3D :: Flag where "FlagAccelerate3D = push_bit 13 1"
definition FlagUSB :: Flag where "FlagUSB = push_bit 14 1"
definition FlagUSBEHCI :: Flag where "FlagUSBEHCI = push_bit 15 1"
definition FlagUSBXHCI :: Flag where "FlagUSBXHCI = push_bit 16 1"

definition defined_flags :: "Flag list" where
  "defined_flags =
     [FlagACPI, FlagIOAPIC, FlagRTCUseUTC, FlagCPUHotplug, FlagPAE, FlagLongMode, FlagHPET,
      FlagHWvirtEx, FlagTripleRaultReset, FlagNestedPaging, FlagLargePages, FlagVTXVPID,
      FlagVTXUX, FlagAccelerate3D, FlagUSB, FlagUSBEHCI, FlagUSBXHCI]"

definition bool2string :: "bool \<Rightarrow> string" where
  "bool2string b = (if b then ''on'' else ''off'')"

definition Flag_Get :: "Flag \<Rightarrow> Flag \<Rightarrow> string" where
  "Flag_Get f o' = bool2string (f AND o' = o')"

section \<open>Data model\<close>

text \<open>
  The source file holds two near-identical revisions of the package one after the other; the
  model follows the second one (with the \<^verbatim>\<open>Description\<close> field and the USB flags), which is
  the one every cited line range points into.

  \<^verbatim>\<open>type MachineState string\<close>: a machine state is any string; five values are named.
\<close>

type_synonym MachineState = string

definition Poweroff :: MachineState where "Poweroff = ''poweroff''"
definition Running :: MachineState where "Running = ''running''"
definition Paused :: MachineState where "Paused = ''paused''"
definition Saved :: MachineState where "Saved = ''saved''"
definition Aborted :: MachineState where "Aborted = ''aborted''"

text \<open>
  \<^verbatim>\<open>CPUs\<close>, \<^verbatim>\<open>Memory\<close> and \<^verbatim>\<open>VRAM\<close> are Go \<^verbatim>\<open>uint\<close>; the program does no
  arithmetic on them (it stores values \<^verbatim>\<open>ParseUint\<close> has bounded by 32 bits and prints them),
  so they are natural numbers here.
\<close>

record Machine =
  Name :: string
  UUID :: string
  State :: MachineState
  CPUs :: nat
  Memory :: nat
  VRAM :: nat
  CfgFile :: string
  BaseFolder :: string
  OSType :: string
  Flag :: Flag
  BootOrder :: "string list"
  Description :: string

text \<open>\<^verbatim>\<open>&Machine{}\<close>: every field at its zero value.\<close>

definition zero_Machine :: Machine where
  "zero_Machine = \<lparr>Name = [], UUID = [], State = [], CPUs = 0, Memory = 0, VRAM = 0,
     CfgFile = [], BaseFolder = [], OSType = [], Flag = 0, BootOrder = [], Description = []\<rparr>"

text \<open>
  Error values: the two sentinel errors of the package, the error \<^verbatim>\<open>fmt.Errorf\<close> builds,
  the two kinds of \<^verbatim>\<open>strconv.NumError\<close> (with the offending text), the scanner's
  \<^verbatim>\<open>bufio.ErrTooLong\<close>, and whatever error the command executor reports.
\<close>

datatype error =
    ErrMachineNotExist
  | ErrMachineExist
  | Errorf string
  | ErrSyntax string
  | ErrRange string
  | ErrTooLong
  | ExecError string

section \<open>The command executor and the outside world\<close>

text \<open>
  What the program does to the outside is recorded as a trace of events: every external
  command with its argument list, and every sleep with its duration in nanoseconds.
\<close>

datatype event = Cmd "string list" | Sleep nat

record 'w sys =
  world :: 'w
  trace :: "event list"

text \<open>
  Declarations of the package that live outside \<^verbatim>\<open>machine.go\<close> are parameters of the model:
  \<^item> \<open>exec\<close>: the external management tool. Run on an argument list in a state of the outside
    world, it gives standard output, standard error, an optional error, and the next state
    of the world.
  \<^item> \<open>elapse\<close>: what the outside world does while the program sleeps for a duration.
  \<^item> \<open>reVMInfoLine\<close>: \<^verbatim>\<open>reVMInfoLine.FindStringSubmatch\<close>; \<open>None\<close> is \<^verbatim>\<open>nil\<close>, otherwise the
    four submatches \<^verbatim>\<open>res[1]\<close> to \<^verbatim>\<open>res[4]\<close> the source reads.
  \<^item> \<open>reVMNameUUID\<close>: \<^verbatim>\<open>reVMNameUUID.FindStringSubmatch\<close>; \<open>None\<close> is \<^verbatim>\<open>nil\<close>, otherwise the
    submatches for the name (\<^verbatim>\<open>res[1]\<close>, the one the source reads) and the UUID.
  \<^item> \<open>reMachineNotFound\<close>: \<^verbatim>\<open>reMachineNotFound.FindString\<close>, the matched text or the empty
    string.
\<close>

record 'w env =
  exec :: "string list \<Rightarrow> 'w \<Rightarrow> (string \<times> string \<times> error option) \<times> 'w"
  elapse :: "nat \<Rightarrow> 'w \<Rightarrow> 'w"
  reVMInfoLine :: "string \<Rightarrow> (string \<times> string \<times> string \<times> string) option"
  reVMNameUUID :: "string \<Rightarrow> (string \<times> string) option"
  reMachineNotFound :: "string \<Rightarrow> string"

text \<open>
  Modelled from the spec: \<^verbatim>\<open>vbmOutErr\<close>, the command executor, which is declared outside
  \<^verbatim>\<open>machine.go\<close> (section 4.1: given an ordered argument list, it synchronously runs the
  external tool and returns standard output, standard error and an error). Each call is
  one event of the trace.
\<close>

definition vbmOutErr ::
  "'w env \<Rightarrow> string list \<Rightarrow> 'w sys \<Rightarrow> (string \<times> string \<times> error option) \<times> 'w sys" where
  "vbmOutErr env args s =
     (case exec env args (world s) of
        (r, w') \<Rightarrow> (r, \<lparr>world = w', trace = trace s @ [Cmd args]\<rparr>))"

text \<open>
  Modelled from the spec: \<^verbatim>\<open>vbmOut\<close>, the thin variant of the executor that returns
  standard output and the error (section 4.1).
\<close>

definition vbmOut :: "'w env \<Rightarrow> string list \<Rightarrow> 'w sys \<Rightarrow> (string \<times> error option) \<times> 'w sys" where
  "vbmOut env args s =
     (case vbmOutErr env args s of ((out, errs, e), s') \<Rightarrow> ((out, e), s'))"

text \<open>
  Modelled from the spec: \<^verbatim>\<open>vbm\<close>, the variant of the executor that returns the error
  alone (section 4.1).
\<close>

definition vbm :: "'w env \<Rightarrow> string list \<Rightarrow> 'w sys \<Rightarrow> error option \<times> 'w sys" where
  "vbm env args s = (case vbmOutErr env args s of ((out, errs, e), s') \<Rightarrow> (e, s'))"

text \<open>\<^verbatim>\<open>time.Sleep(d)\<close>, with \<^verbatim>\<open>time.Second\<close> in nanoseconds.\<close>

definition Second :: nat where "Second = 1000000000"

definition time_Sleep :: "'w env \<Rightarrow> nat \<Rightarrow> 'w sys \<Rightarrow> 'w sys" where
  "time_Sleep env d s = \<lparr>world = elapse env d (world s), trace = trace s @ [Sleep d]\<rparr>"

text \<open>
  The events a computation added to the trace, from the state it started in to the state
  it ended in, and the events that run the creation command.
\<close>

definition issued :: "'w sys \<Rightarrow> 'w sys \<Rightarrow> event list" where
  "issued s s' = drop (length (trace s)) (trace s')"

fun is_create :: "event \<Rightarrow> bool" where
  "is_create (Cmd (c # args)) = (c = ''createvm'')"
| "is_create ev = False"

section \<open>Library functions the parser calls\<close>

text \<open>
  \<^verbatim>\<open>bufio.Scanner\<close> over a string with the default line splitter: tokens end at a newline, a
  trailing carriage return is dropped, a last line without newline is a token when it is
  not empty. A token that does not fit the 64 KiB buffer stops the scan with
  \<^verbatim>\<open>ErrTooLong\<close>. The result is the list of tokens \<^verbatim>\<open>Scan\<close> delivers and what \<^verbatim>\<open>Err\<close>
  says afterwards.
\<close>

definition MaxScanTokenSize :: nat where "MaxScanTokenSize = 64 * 1024"

definition dropCR :: "string \<Rightarrow> string" where
  "dropCR data = (if data \<noteq> [] \<and> last data = CHR 0x0D then butlast data else data)"

fun scan_from :: "string \<Rightarrow> string \<Rightarrow> string list \<times> error option" where
  "scan_from tok [] =
     (if tok = [] then ([], None)
      else if MaxScanTokenSize \<le> length tok then ([], Some ErrTooLong)
      else ([dropCR tok], None))"
| "scan_from tok (c # cs) =
     (if c = CHR 0x0A then
        (if MaxScanTokenSize \<le> length tok then ([], Some ErrTooLong)
         else (case scan_from [] cs of (ls, e) \<Rightarrow> (dropCR tok # ls, e)))
      else scan_from (tok @ [c]) cs)"

definition scanLines :: "string \<Rightarrow> string list \<times> error option" where
  "scanLines out = scan_from [] out"

text \<open>
  \<^verbatim>\<open>strconv.ParseUint(val, 10, 32)\<close>: a non-empty string of decimal digits whose value fits
  32 bits; the bytes are read left to right and the first offence decides the error.
\<close>

definition is_digit :: "char \<Rightarrow> bool" where
  "is_digit c = (of_char (CHR ''0'') \<le> (of_char c :: nat) \<and> (of_char c :: nat) \<le> of_char (CHR ''9''))"

definition digit_val :: "char \<Rightarrow> nat" where
  "digit_val c = of_char c - of_char (CHR ''0'')"

fun parse_digits :: "string \<Rightarrow> nat \<Rightarrow> string \<Rightarrow> error + nat" where
  "parse_digits s0 n [] = Inr n"
| "parse_digits s0 n (c # cs) =
     (if \<not> is_digit c then Inl (ErrSyntax s0)
      else if 2 ^ 32 - 1 < n * 10 + digit_val c then Inl (ErrRange s0)
      else parse_digits s0 (n * 10 + digit_val c) cs)"

definition ParseUint_10_32 :: "string \<Rightarrow> error + nat" where
  "ParseUint_10_32 s = (if s = [] then Inl (ErrSyntax s) else parse_digits s 0 s)"

text \<open>
  \<^verbatim>\<open>filepath.Dir\<close> with the separator \<^verbatim>\<open>/\<close> (no volume names): everything up to the last
  separator, cleaned. \<^verbatim>\<open>filepath.Clean\<close> works through the path elements: empty elements and
  \<^verbatim>\<open>.\<close> are dropped, \<^verbatim>\<open>..\<close> removes the element before it when there is one to remove, is
  dropped at the root, and is kept at the front of a relative path; the empty result is
  \<^verbatim>\<open>.\<close>.
\<close>

fun split_sep :: "string \<Rightarrow> string list" where
  "split_sep [] = [] # []"
| "split_sep (c # cs) =
     (if c = CHR ''/'' then [] # split_sep cs
      else (case split_sep cs of e # es \<Rightarrow> (c # e) # es | [] \<Rightarrow> [c] # []))"

fun clean_elems :: "bool \<Rightarrow> string list \<Rightarrow> string list \<Rightarrow> string list" where
  "clean_elems rooted [] out = rev out"
| "clean_elems rooted (e # es) out =
     (if e = [] \<or> e = ''.'' then clean_elems rooted es out
      else if e = ''..'' then
        (if out \<noteq> [] \<and> hd out \<noteq> ''..'' then clean_elems rooted es (tl out)
         else if \<not> rooted then clean_elems rooted es (''..'' # out)
         else clean_elems rooted es out)
      else clean_elems rooted es (e # out))"

fun join_sep :: "string list \<Rightarrow> string" where
  "join_sep [] = []"
| "join_sep [e] = e"
| "join_sep (e # es) = e @ CHR ''/'' # join_sep es"

definition Clean :: "string \<Rightarrow> string" where
  "Clean path =
     (if path = [] then ''.''
      else let rooted = (hd path = CHR ''/'');
               out = (if rooted then ''/'' else []) @ join_sep (clean_elems rooted (split_sep path) [])
           in if out = [] then ''.'' else out)"

definition Dir :: "string \<Rightarrow> string" where
  "Dir path = Clean (rev (dropWhile (\<lambda>c. c \<noteq> CHR ''/'') (rev path)))"

text \<open>\<^verbatim>\<open>fmt.Sprintf("%d", n)\<close> for a number that is not negative.\<close>

fun fmt_d :: "nat \<Rightarrow> string" where
  "fmt_d n =
     (if n < 10 then [''0123456789'' ! n]
      else fmt_d (n div 10) @ [''0123456789'' ! (n mod 10)])"

declare fmt_d.simps [simp del]

section \<open>The info-line pattern\<close>

text \<open>
  Splitting a string at the last occurrence of a character, and at the last occurrence of
  a double quote followed by an equals sign; the parts before and after, or \<open>None\<close> when
  there is no occurrence.
\<close>

fun rsplit :: "char \<Rightarrow> string \<Rightarrow> (string \<times> string) option" where
  "rsplit d [] = None"
| "rsplit d (c # cs) =
     (case rsplit d cs of
        Some (k, v) \<Rightarrow> Some (c # k, v)
      | None \<Rightarrow> (if c = d then Some ([], cs) else None))"

fun rsplit_quote_eq :: "string \<Rightarrow> (string \<times> string) option" where
  "rsplit_quote_eq (a # b # cs) =
     (case rsplit_quote_eq (b # cs) of
        Some (k, v) \<Rightarrow> Some (a # k, v)
      | None \<Rightarrow> (if a = CHR 0x22 \<and> b = CHR ''='' then Some ([], cs) else None))"
| "rsplit_quote_eq cs = None"

text \<open>
  The two ways a line can give a key, quoted and bare, each with the text after the equals
  sign, and the two ways that text can give a value.
\<close>

definition quoted_key :: "string \<Rightarrow> (string \<times> string) option" where
  "quoted_key l =
     (case l of
        [] \<Rightarrow> None
      | c # r \<Rightarrow>
          (if c = CHR 0x22 then
             (case rsplit_quote_eq r of
                Some (k, v) \<Rightarrow> (if k \<noteq> [] then Some (k, v) else None)
              | None \<Rightarrow> None)
           else None))"

definition bare_key :: "string \<Rightarrow> (string \<times> string) option" where
  "bare_key l =
     (case rsplit (CHR ''='') l of
        Some (k, v) \<Rightarrow> (if k \<noteq> [] then Some (k, v) else None)
      | None \<Rightarrow> None)"

definition info_value :: "string \<Rightarrow> string \<times> string" where
  "info_value v =
     (case v of
        [] \<Rightarrow> ([], [])
      | c # r \<Rightarrow>
          (if c = CHR 0x22 then
             (case rsplit (CHR 0x22) r of Some (q, rest) \<Rightarrow> (q, []) | None \<Rightarrow> ([], v))
           else ([], v)))"

text \<open>
  Modelled from the spec: the pattern \<^verbatim>\<open>reVMInfoLine\<close>, which is declared outside
  \<^verbatim>\<open>machine.go\<close>. The spec (sections 4.2 and 6) describes lines \<^verbatim>\<open>key=value\<close> or
  \<^verbatim>\<open>key="value"\<close>, one pair per line, values empty, bare or double-quoted, quotes stripped,
  no escape processing. The model reads a line as a key, an equals sign and a value, each
  of key and value quoted or bare, as an unanchored greedy pattern would: a quoted key ends
  at the last \<^verbatim>\<open>"=\<close>, a bare key at the last \<^verbatim>\<open>=\<close>, a quoted value at the last quote. The
  four results are the quoted key, the bare key, the quoted value and the bare value, the
  one that did not take part being empty.
\<close>

definition vmInfoLine :: "string \<Rightarrow> (string \<times> string \<times> string \<times> string) option" where
  "vmInfoLine l =
     (case quoted_key l of
        Some (k, v) \<Rightarrow> Some (k, [], info_value v)
      | None \<Rightarrow>
          (case bare_key l of
             Some (k, v) \<Rightarrow> Some ([], k, info_value v)
           | None \<Rightarrow> None))"

section \<open>Querying machines\<close>

text \<open>
  The key and the value the loop body takes from a line: \<^verbatim>\<open>res[1]\<close>, or \<^verbatim>\<open>res[2]\<close> when
  that is empty, and \<^verbatim>\<open>res[3]\<close>, or \<^verbatim>\<open>res[4]\<close> when that is empty; \<open>None\<close> when the line
  does not match and the loop continues.
\<close>

definition info_key_val :: "'w env \<Rightarrow> string \<Rightarrow> (string \<times> string) option" where
  "info_key_val env l =
     (case reVMInfoLine env l of
        None \<Rightarrow> None
      | Some (r1, r2, r3, r4) \<Rightarrow>
          Some (if r1 = [] then r2 else r1, if r3 = [] then r4 else r3))"

text \<open>
  One pass through the body of the scan loop of \<^verbatim>\<open>GetMachine\<close>: the machine as the line
  leaves it, or the error the function returns with.
\<close>

definition info_line :: "'w env \<Rightarrow> string \<Rightarrow> Machine \<Rightarrow> error + Machine" where
  "info_line env l m =
     (case info_key_val env l of
        None \<Rightarrow> Inr m
      | Some (key, val) \<Rightarrow>
          (if key = ''name'' then Inr (m\<lparr>Name := val\<rparr>)
           else if key = ''UUID'' then Inr (m\<lparr>UUID := val\<rparr>)
           else if key = ''VMState'' then Inr (m\<lparr>State := val\<rparr>)
           else if key = ''memory'' then
             (case ParseUint_10_32 val of
                Inl e \<Rightarrow> Inl e
              | Inr n \<Rightarrow> Inr (m\<lparr>Memory := n\<rparr>))
           else if key = ''cpus'' then
             (case ParseUint_10_32 val of
                Inl e \<Rightarrow> Inl e
              | Inr n \<Rightarrow> Inr (m\<lparr>CPUs := n\<rparr>))
           else if key = ''vram'' then
             (case ParseUint_10_32 val of
                Inl e \<Rightarrow> Inl e
              | Inr n \<Rightarrow> Inr (m\<lparr>VRAM := n\<rparr>))
           else if key = ''CfgFile'' then Inr (m\<lparr>CfgFile := val, BaseFolder := Dir val\<rparr>)
           else if key = ''description'' then Inr (m\<lparr>Description := val\<rparr>)
           else Inr m))"

text \<open>The scan loop itself, over the lines the scanner delivers.\<close>

fun info_loop :: "'w env \<Rightarrow> string list \<Rightarrow> Machine \<Rightarrow> error + Machine" where
  "info_loop env [] m = Inr m"
| "info_loop env (l # ls) m =
     (case info_line env l m of
        Inl e \<Rightarrow> Inl e
      | Inr m' \<Rightarrow> info_loop env ls m')"

text \<open>
  The keys the loop body has a case for, and the lines that carry one of them.
\<close>

definition recognized_keys :: "string list" where
  "recognized_keys =
     [''name'', ''UUID'', ''VMState'', ''memory'', ''cpus'', ''vram'', ''CfgFile'',
      ''description'']"

definition recognized :: "'w env \<Rightarrow> string \<Rightarrow> bool" where
  "recognized env l =
     (case info_key_val env l of None \<Rightarrow> False | Some (key, val) \<Rightarrow> key \<in> set recognized_keys)"

text \<open>
  The values of the \<^verbatim>\<open>VMState\<close> lines among the scanned lines, in order, and the last of
  them (the empty string when there is none).
\<close>

definition VMState_values :: "'w env \<Rightarrow> string list \<Rightarrow> string list" where
  "VMState_values env ls =
     map snd (filter (\<lambda>kv. fst kv = ''VMState'') (List.map_filter (info_key_val env) ls))"

definition last_VMState :: "'w env \<Rightarrow> string list \<Rightarrow> MachineState" where
  "last_VMState env ls =
     (if VMState_values env ls = [] then [] else last (VMState_values env ls))"

definition parse_info :: "'w env \<Rightarrow> string \<Rightarrow> error + Machine" where
  "parse_info env out =
     (case scanLines out of
        (ls, serr) \<Rightarrow>
          (case info_loop env ls zero_Machine of
             Inl e \<Rightarrow> Inl e
           | Inr m \<Rightarrow> (case serr of Some e \<Rightarrow> Inl e | None \<Rightarrow> Inr m)))"

definition GetMachine :: "'w env \<Rightarrow> string \<Rightarrow> 'w sys \<Rightarrow> (error + Machine) \<times> 'w sys" where
  "GetMachine env id' s =
     (case vbmOutErr env [''showvminfo'', id', ''--machinereadable''] s of
        ((out, errs, Some e), s') \<Rightarrow>
          (if reMachineNotFound env errs \<noteq> [] then (Inl ErrMachineNotExist, s')
           else (Inl e, s'))
      | ((out, errs, None), s') \<Rightarrow> (parse_info env out, s'))"

text \<open>
  A method with a pointer receiver returns the machine it leaves behind together with its
  error (\<open>None\<close> is \<^verbatim>\<open>nil\<close>) and the state of the outside.
\<close>

definition Machine_Refresh ::
  "'w env \<Rightarrow> Machine \<Rightarrow> 'w sys \<Rightarrow> error option \<times> Machine \<times> 'w sys" where
  "Machine_Refresh env m s =
     (let id' = (if Name m = [] then UUID m else Name m)
      in case GetMachine env id' s of
           (Inl e, s') \<Rightarrow> (Some e, m, s')
         | (Inr mm, s') \<Rightarrow> (None, mm, s'))"

text \<open>The scan loop of \<^verbatim>\<open>ListMachines\<close>.\<close>

fun list_loop ::
  "'w env \<Rightarrow> string list \<Rightarrow> Machine list \<Rightarrow> 'w sys \<Rightarrow> (error + Machine list) \<times> 'w sys" where
  "list_loop env [] ms s = (Inr ms, s)"
| "list_loop env (l # ls) ms s =
     (case reVMNameUUID env l of
        None \<Rightarrow> list_loop env ls ms s
      | Some (name, uuid) \<Rightarrow>
          (case GetMachine env name s of
             (Inl e, s') \<Rightarrow> (Inl e, s')
           | (Inr m, s') \<Rightarrow> list_loop env ls (ms @ [m]) s'))"

definition ListMachines :: "'w env \<Rightarrow> 'w sys \<Rightarrow> (error + Machine list) \<times> 'w sys" where
  "ListMachines env s =
     (case vbmOut env [''list'', ''vms''] s of
        ((out, Some e), s1) \<Rightarrow> (Inl e, s1)
      | ((out, None), s1) \<Rightarrow>
          (case scanLines out of
             (ls, serr) \<Rightarrow>
               (case list_loop env ls [] s1 of
                  (Inl e, s2) \<Rightarrow> (Inl e, s2)
                | (Inr ms, s2) \<Rightarrow>
                    (case serr of Some e \<Rightarrow> (Inl e, s2) | None \<Rightarrow> (Inr ms, s2)))))"

definition CreateMachine ::
  "'w env \<Rightarrow> string \<Rightarrow> string \<Rightarrow> 'w sys \<Rightarrow> (error + Machine) \<times> 'w sys" where
  "CreateMachine env name basefolder s =
     (if name = [] then (Inl (Errorf ''machine name is empty''), s)
      else case ListMachines env s of
             (Inl e, s1) \<Rightarrow> (Inl e, s1)
           | (Inr ms, s1) \<Rightarrow>
               (if list_ex (\<lambda>m. Name m = name) ms then (Inl ErrMachineExist, s1)
                else let args = [''createvm'', ''--name'', name, ''--register'']
                                @ (if basefolder \<noteq> [] then [''--basefolder'', basefolder] else [])
                     in case vbm env args s1 of
                          (Some e, s2) \<Rightarrow> (Inl e, s2)
                        | (None, s2) \<Rightarrow> GetMachine env name s2))"

section \<open>Lifecycle operations\<close>

definition Machine_Start :: "'w env \<Rightarrow> Machine \<Rightarrow> 'w sys \<Rightarrow> error option \<times> 'w sys" where
  "Machine_Start env m s =
     (if State m = Paused then vbm env [''controlvm'', Name m, ''resume''] s
      else if State m = Poweroff \<or> State m = Saved \<or> State m = Aborted then
        vbm env [''startvm'', Name m, ''--type'', ''headless''] s
      else (None, s))"

definition Machine_Save :: "'w env \<Rightarrow> Machine \<Rightarrow> 'w sys \<Rightarrow> error option \<times> 'w sys" where
  "Machine_Save env m s =
     (if State m = Paused then
        (case Machine_Start env m s of
           (Some e, s') \<Rightarrow> (Some e, s')
         | (None, s') \<Rightarrow> vbm env [''controlvm'', Name m, ''savestate''] s')
      else if State m = Poweroff \<or> State m = Aborted \<or> State m = Saved then (None, s)
      else vbm env [''controlvm'', Name m, ''savestate''] s)"

definition Machine_Pause :: "'w env \<Rightarrow> Machine \<Rightarrow> 'w sys \<Rightarrow> error option \<times> 'w sys" where
  "Machine_Pause env m s =
     (if State m = Paused \<or> State m = Poweroff \<or> State m = Aborted \<or> State m = Saved
      then (None, s)
      else vbm env [''controlvm'', Name m, ''pause''] s)"

text \<open>
  The busy-wait loop of \<^verbatim>\<open>Stop\<close> has no bound: the model is a partial function, and a
  run that never leaves the loop is the value \<open>None\<close>.
\<close>

partial_function (option) Stop_loop ::
  "'w env \<Rightarrow> Machine \<Rightarrow> 'w sys \<Rightarrow> (error option \<times> Machine \<times> 'w sys) option" where
  "Stop_loop env m s =
     (if State m \<noteq> Poweroff then
        (case vbm env [''controlvm'', Name m, ''acpipowerbutton''] s of
           (Some e, s1) \<Rightarrow> Some (Some e, m, s1)
         | (None, s1) \<Rightarrow>
             (case Machine_Refresh env m (time_Sleep env (1 * Second) s1) of
                (Some e, m', s2) \<Rightarrow> Some (Some e, m', s2)
              | (None, m', s2) \<Rightarrow> Stop_loop env m' s2))
      else Some (None, m, s))"

text \<open>
  The events of one round of that loop: the power button command for some machine name, a
  sleep of one second, and the query \<^verbatim>\<open>Refresh\<close> makes for some identifier.
\<close>

fun poll_round :: "event list \<Rightarrow> bool" where
  "poll_round [Cmd [c, name, a], Sleep d, Cmd [q, id', f]] =
     (c = ''controlvm'' \<and> a = ''acpipowerbutton'' \<and> d = Second
      \<and> q = ''showvminfo'' \<and> f = ''--machinereadable'')"
| "poll_round evs = False"

definition Machine_Stop ::
  "'w env \<Rightarrow> Machine \<Rightarrow> 'w sys \<Rightarrow> (error option \<times> Machine \<times> 'w sys) option" where
  "Machine_Stop env m s =
     (if State m = Poweroff \<or> State m = Aborted \<or> State m = Saved then Some (None, m, s)
      else case (if State m = Paused then Machine_Start env m s else (None, s)) of
             (Some e, s') \<Rightarrow> Some (Some e, m, s')
           | (None, s') \<Rightarrow> Stop_loop env m s')"

definition Machine_Poweroff :: "'w env \<Rightarrow> Machine \<Rightarrow> 'w sys \<Rightarrow> error option \<times> 'w sys" where
  "Machine_Poweroff env m s =
     (if State m = Poweroff \<or> State m = Aborted \<or> State m = Saved then (None, s)
      else vbm env [''controlvm'', Name m, ''poweroff''] s)"

definition Machine_Restart ::
  "'w env \<Rightarrow> Machine \<Rightarrow> 'w sys \<Rightarrow> (error option \<times> Machine \<times> 'w sys) option" where
  "Machine_Restart env m s =
     (case (if State m = Paused \<or> State m = Saved then Machine_Start env m s else (None, s)) of
        (Some e, s1) \<Rightarrow> Some (Some e, m, s1)
      | (None, s1) \<Rightarrow>
          (case Machine_Stop env m s1 of
             None \<Rightarrow> None
           | Some (Some e, m', s2) \<Rightarrow> Some (Some e, m', s2)
           | Some (None, m', s2) \<Rightarrow>
               (case Machine_Start env m' s2 of (e, s3) \<Rightarrow> Some (e, m', s3))))"

definition Machine_Reset :: "'w env \<Rightarrow> Machine \<Rightarrow> 'w sys \<Rightarrow> error option \<times> 'w sys" where
  "Machine_Reset env m s =
     (case (if State m = Paused \<or> State m = Saved then Machine_Start env m s else (None, s)) of
        (Some e, s') \<Rightarrow> (Some e, s')
      | (None, s') \<Rightarrow> vbm env [''controlvm'', Name m, ''reset''] s')"

definition Machine_Delete :: "'w env \<Rightarrow> Machine \<Rightarrow> 'w sys \<Rightarrow> error option \<times> 'w sys" where
  "Machine_Delete env m s =
     (case Machine_Poweroff env m s of
        (Some e, s') \<Rightarrow> (Some e, s')
      | (None, s') \<Rightarrow> vbm env [''unregistervm'', Name m, ''--delete''] s')"

section \<open>Applying settings\<close>

text \<open>The loop of \<^verbatim>\<open>Modify\<close> over the boot order, \<open>i\<close> being the index of the next entry.\<close>

fun boot_args :: "nat \<Rightarrow> string list \<Rightarrow> string list" where
  "boot_args i [] = []"
| "boot_args i (dev # devs) =
     (if 3 < i then [] else [''--boot'' @ fmt_d (i + 1), dev] @ boot_args (i + 1) devs)"

text \<open>The flags of the four boot slots.\<close>

definition boot_slots :: "string list" where
  "boot_slots = [''--boot1'', ''--boot2'', ''--boot3'', ''--boot4'']"

text \<open>The argument list \<^verbatim>\<open>Modify\<close> starts from, and the one it runs the tool on.\<close>

definition Modify_settings :: "Machine \<Rightarrow> string list" where
  "Modify_settings m =
     [''modifyvm'', Name m,
      ''--firmware'', ''bios'',
      ''--bioslogofadein'', ''off'',
      ''--bioslogofadeout'', ''off'',
      ''--bioslogodisplaytime'', ''0'',
      ''--biosbootmenu'', ''disabled'',
      ''--ostype'', OSType m,
      ''--cpus'', fmt_d (CPUs m),
      ''--memory'', fmt_d (Memory m),
      ''--vram'', fmt_d (VRAM m),
      ''--description'', Description m,
      ''--acpi'', Flag_Get (Flag m) FlagACPI,
      ''--ioapic'', Flag_Get (Flag m) FlagIOAPIC,
      ''--rtcuseutc'', Flag_Get (Flag m) FlagRTCUseUTC,
      ''--cpuhotplug'', Flag_Get (Flag m) FlagCPUHotplug,
      ''--pae'', Flag_Get (Flag m) FlagPAE,
      ''--longmode'', Flag_Get (Flag m) FlagLongMode,
      ''--hpet'', Flag_Get (Flag m) FlagHPET,
      ''--hwvirtex'', Flag_Get (Flag m) FlagHWvirtEx,
      ''--triplefaultreset'', Flag_Get (Flag m) FlagTripleRaultReset,
      ''--nestedpaging'', Flag_Get (Flag m) FlagNestedPaging,
      ''--largepages'', Flag_Get (Flag m) FlagLargePages,
      ''--vtxvpid'', Flag_Get (Flag m) FlagVTXVPID,
      ''--vtxux'', Flag_Get (Flag m) FlagVTXUX,
      ''--accelerate3d'', Flag_Get (Flag m) FlagAccelerate3D,
      ''--usb'', Flag_Get (Flag m) FlagUSB,
      ''--usbehci'', Flag_Get (Flag m) FlagUSBEHCI,
      ''--usbxhci'', Flag_Get (Flag m) FlagUSBXHCI]"

definition Modify_args :: "Machine \<Rightarrow> string list" where
  "Modify_args m = Modify_settings m @ boot_args 0 (BootOrder m)"

definition Machine_Modify ::
  "'w env \<Rightarrow> Machine \<Rightarrow> 'w sys \<Rightarrow> error option \<times> Machine \<times> 'w sys" where
  "Machine_Modify env m s =
     (case vbm env (Modify_args m) s of
        (Some e, s') \<Rightarrow> (Some e, m, s')
      | (None, s') \<Rightarrow> Machine_Refresh env m s')"

section \<open>A scripted host for concrete runs\<close>

text \<open>
  Modelled from the spec: the pattern \<^verbatim>\<open>reVMNameUUID\<close>, declared outside \<^verbatim>\<open>machine.go\<close>.
  The spec (section 4.2) says a line of the listing yields a quoted name and a bare UUID,
  and gives the line \<^verbatim>\<open>"demo" {1234-uuid}\<close>: a name in double quotes, a space, and the UUID
  in braces.
\<close>

definition vmNameUUID :: "string \<Rightarrow> (string \<times> string) option" where
  "vmNameUUID l =
     (case l of
        [] \<Rightarrow> None
      | c # r \<Rightarrow>
          (if c = CHR 0x22 then
             (case rsplit (CHR 0x22) r of
                None \<Rightarrow> None
              | Some (name, rest) \<Rightarrow>
                  (case rest of
                     a # b # u \<Rightarrow>
                       (if a = CHR '' '' \<and> b = CHR ''{'' \<and> name \<noteq> [] \<and> u \<noteq> []
                           \<and> last u = CHR ''}'' \<and> butlast u \<noteq> []
                        then Some (name, butlast u) else None)
                   | _ \<Rightarrow> None))
           else None))"

text \<open>Whether a text occurs in a string.\<close>

fun is_prefix :: "string \<Rightarrow> string \<Rightarrow> bool" where
  "is_prefix [] ys = True"
| "is_prefix (x # xs) [] = False"
| "is_prefix (x # xs) (y # ys) = (x = y \<and> is_prefix xs ys)"

fun has_text :: "string \<Rightarrow> string \<Rightarrow> bool" where
  "has_text p [] = is_prefix p []"
| "has_text p (c # cs) = (is_prefix p (c # cs) \<or> has_text p cs)"

text \<open>
  Modelled from the spec: the pattern \<^verbatim>\<open>reMachineNotFound\<close>, declared outside
  \<^verbatim>\<open>machine.go\<close>; the spec (sections 4.5 and 7) calls it a known "could not find" pattern
  in the tool's error stream.
\<close>

definition machineNotFound :: "string \<Rightarrow> string" where
  "machineNotFound errs = (if has_text ''Could not find'' errs then ''Could not find'' else [])"

text \<open>
  A host whose answers are scripted: the world is the number of commands run so far, and
  the script says what the tool answers to an argument list at that point. Sleeping
  changes nothing.
\<close>

definition scripted :: "(nat \<Rightarrow> string list \<Rightarrow> string \<times> string \<times> error option) \<Rightarrow> nat env" where
  "scripted f =
     \<lparr>exec = (\<lambda>args n. (f n args, Suc n)), elapse = (\<lambda>d n. n),
      reVMInfoLine = vmInfoLine, reVMNameUUID = vmNameUUID,
      reMachineNotFound = machineNotFound\<rparr>"

definition sys0 :: "nat sys" where
  "sys0 = \<lparr>world = 0, trace = []\<rparr>"

definition text_of_lines :: "string list \<Rightarrow> string" where
  "text_of_lines ls = concat (map (\<lambda>l. l @ [CHR 0x0A]) ls)"

text \<open>The machine-readable block of a machine called demo in a given state.\<close>

definition demo_lines :: "string \<Rightarrow> string list" where
  "demo_lines st =
     [''name=\"demo\"'', ''UUID=\"1234-uuid\"'', ''VMState=\"'' @ st @ ''\"'', ''memory=512'',
      ''cpus=2'', ''vram=16'', ''CfgFile=\"/vms/demo/demo.vbox\"'']"

definition demo_machine :: "string \<Rightarrow> Machine" where
  "demo_machine st =
     \<lparr>Name = ''demo'', UUID = ''1234-uuid'', State = st, CPUs = 2, Memory = 512, VRAM = 16,
      CfgFile = ''/vms/demo/demo.vbox'', BaseFolder = ''/vms/demo'', OSType = [], Flag = 0,
      BootOrder = [], Description = []\<rparr>"

text \<open>A host on which every command succeeds and the machine is always in the given state.\<close>

definition steady :: "string \<Rightarrow> nat \<Rightarrow> string list \<Rightarrow> string \<times> string \<times> error option" where
  "steady st n args =
     (if args \<noteq> [] \<and> hd args = ''showvminfo'' then (text_of_lines (demo_lines st), [], None)
      else ([], [], None))"

text \<open>A host that reports a memory size that is not a number.\<close>

definition bad_memory :: "nat \<Rightarrow> string list \<Rightarrow> string \<times> string \<times> error option" where
  "bad_memory n args =
     (text_of_lines [''name=\"demo\"'', ''memory=abc'', ''VMState=\"paused\"''], [], None)"

text \<open>
  A host on which the machine is running until \<open>k\<close> commands have been run and powered off
  from then on.
\<close>

definition shutting_down :: "nat \<Rightarrow> nat \<Rightarrow> string list \<Rightarrow> string \<times> string \<times> error option" where
  "shutting_down k n args =
     (if args \<noteq> [] \<and> hd args = ''showvminfo''
      then (text_of_lines (demo_lines (if n < k then Running else Poweroff)), [], None)
      else ([], [], None))"

text \<open>A host that lists the machine demo and one line of another shape.\<close>

definition listing :: "nat \<Rightarrow> string list \<Rightarrow> string \<times> string \<times> error option" where
  "listing n args =
     (if args = [''list'', ''vms'']
      then (text_of_lines [''\"demo\" {1234-uuid}'', ''Oracle VM VirtualBox''], [], None)
      else steady Running n args)"

text \<open>
  A host whose listing is the line of the machine demo followed by a last line of 64 KiB
  of the letter x, which is as long as the scanner's buffer.
\<close>

definition long_listing :: "nat \<Rightarrow> string list \<Rightarrow> string \<times> string \<times> error option" where
  "long_listing n args =
     (if args = [''list'', ''vms'']
      then (''\"demo\" {1234-uuid}'' @ CHR 0x0A # replicate MaxScanTokenSize (CHR ''x''), [], None)
      else steady Running n args)"

text \<open>
  A host whose machine-readable block has lines with other keys and a line without a key
  among the seven lines of the demo machine.
\<close>

definition noisy_lines :: "string list" where
  "noisy_lines =
     [''name=\"demo\"'', ''ostype=\"Linux26_64\"'', ''UUID=\"1234-uuid\"'',
      ''VMState=\"running\"'', ''VMStateChangeTime=\"2016-01-01T00:00:00.000000000\"'',
      ''memory=512'', ''cpus=2'', ''no key here'', ''vram=16'', ''hpet=\"off\"'',
      ''CfgFile=\"/vms/demo/demo.vbox\"'']"

definition noisy :: "nat \<Rightarrow> string list \<Rightarrow> string \<times> string \<times> error option" where
  "noisy n args = (text_of_lines noisy_lines, [], None)"

section \<open>Flag lookup\<close>

lemma defined_flags_nth:
  "k < 17 \<Longrightarrow> defined_flags ! k = 2 ^ k"
proof -
  assume "k < 17"
  then have "k \<in> {0,1,2,3,4,5,6,7,8,9,10,11,12,13,14,15,16}" by simp arith
  then show ?thesis
    unfolding defined_flags_def FlagACPI_def FlagIOAPIC_def FlagRTCUseUTC_def
      FlagCPUHotplug_def FlagPAE_def FlagLongMode_def FlagHPET_def FlagHWvirtEx_def
      FlagTripleRaultReset_def FlagNestedPaging_def FlagLargePages_def FlagVTXVPID_def
      FlagVTXUX_def FlagAccelerate3D_def FlagUSB_def FlagUSBEHCI_def FlagUSBXHCI_def
    by (elim insertE emptyE) simp_all
qed

lemma length_defined_flags: "length defined_flags = 17"
  by (simp add: defined_flags_def)

lemma Get_mask: "Flag_Get f o' = (if (\<forall>n. bit o' n \<longrightarrow> bit f n) then ''on'' else ''off'')"
  by (auto simp: Flag_Get_def bool2string_def bit_eq_iff bit_and_iff)

lemma Get_single: "Flag_Get f (2 ^ k) = (if bit f k then ''on'' else ''off'')"
  by (auto simp: Get_mask bit_exp_iff)

text \<open>
  Claim C10. For every flag value \<open>f\<close> and every defined flag bit (the \<open>k\<close>-th constant of
  the block is the single bit \<open>k\<close>), \<open>Flag_Get\<close> answers "on" exactly when that bit is set in \<open>f\<close>
  and "off" exactly when it is clear, whatever the other bits of \<open>f\<close> are: two flag values
  that agree on bit \<open>k\<close> get the same answer. For an arbitrary mask \<open>o'\<close>, \<open>Flag_Get\<close> answers "on"
  exactly when every bit of the mask is set in \<open>f\<close>, so the zero mask always gives "on".
\<close>

theorem Flag_Get_bitwise:
  "(\<forall>k < length defined_flags.
       defined_flags ! k = 2 ^ k \<and>
       (bit f k \<longrightarrow> Flag_Get f (defined_flags ! k) = ''on'') \<and>
       (\<not> bit f k \<longrightarrow> Flag_Get f (defined_flags ! k) = ''off'') \<and>
       (\<forall>g. bit g k = bit f k \<longrightarrow> Flag_Get g (defined_flags ! k) = Flag_Get f (defined_flags ! k)))
   \<and> (Flag_Get f o' = ''on'' \<longleftrightarrow> (\<forall>n. bit o' n \<longrightarrow> bit f n))
   \<and> (Flag_Get f o' = ''off'' \<longleftrightarrow> \<not> (\<forall>n. bit o' n \<longrightarrow> bit f n))
   \<and> Flag_Get f 0 = ''on''"
proof -
  have "\<forall>k < length defined_flags.
       defined_flags ! k = 2 ^ k \<and>
       (bit f k \<longrightarrow> Flag_Get f (defined_flags ! k) = ''on'') \<and>
       (\<not> bit f k \<longrightarrow> Flag_Get f (defined_flags ! k) = ''off'') \<and>
       (\<forall>g. bit g k = bit f k \<longrightarrow> Flag_Get g (defined_flags ! k) = Flag_Get f (defined_flags ! k))"
    by (simp add: length_defined_flags defined_flags_nth Get_single)
  moreover have "Flag_Get f o' = ''on'' \<longleftrightarrow> (\<forall>n. bit o' n \<longrightarrow> bit f n)"
    by (simp add: Get_mask)
  moreover have "Flag_Get f o' = ''off'' \<longleftrightarrow> \<not> (\<forall>n. bit o' n \<longrightarrow> bit f n)"
    by (simp add: Get_mask)
  moreover have "Flag_Get f 0 = ''on''"
    by (simp add: Get_mask)
  ultimately show ?thesis by blast
qed

theorem Flag_Get_bitwise_witness:
  "Flag_Get 5 FlagRTCUseUTC = ''on'' \<and> Flag_Get 5 FlagIOAPIC = ''off'' \<and> Flag_Get 5 3 = ''off''
   \<and> Flag_Get 5 0 = ''on''"
proof -
  have b: "bit (5::int) 2" "\<not> bit (5::int) 1" by (simp_all add: bit_iff_odd)
  have n: "defined_flags ! 2 = FlagRTCUseUTC" "defined_flags ! 1 = FlagIOAPIC"
    by (simp_all add: defined_flags_def)
  have m: "\<not> (\<forall>n. bit (3::int) n \<longrightarrow> bit (5::int) n)"
    by (rule notI, drule spec [of _ 1]) (simp add: bit_iff_odd)
  note th = Flag_Get_bitwise [of 5 3]
  from th have per_bit: "\<And>k. k < length defined_flags \<Longrightarrow>
       (bit (5::int) k \<longrightarrow> Flag_Get 5 (defined_flags ! k) = ''on'') \<and>
       (\<not> bit (5::int) k \<longrightarrow> Flag_Get 5 (defined_flags ! k) = ''off'')"
    by blast
  have "Flag_Get 5 FlagRTCUseUTC = ''on''"
    using per_bit [of 2] b n by (simp add: length_defined_flags)
  moreover have "Flag_Get 5 FlagIOAPIC = ''off''"
    using per_bit [of 1] b n by (simp add: length_defined_flags)
  moreover from th m have "Flag_Get 5 3 = ''off''" by blast
  moreover from th have "Flag_Get 5 0 = ''on''" by blast
  ultimately show ?thesis by blast
qed

section \<open>Lifecycle routing\<close>

lemma vbm_trace: "trace (snd (vbm env args s)) = trace s @ [Cmd args]"
  by (simp add: vbm_def vbmOutErr_def split: prod.splits)

lemma state_names_distinct:
  "Poweroff \<noteq> Running" "Poweroff \<noteq> Paused" "Poweroff \<noteq> Saved" "Poweroff \<noteq> Aborted"
  "Running \<noteq> Paused" "Running \<noteq> Saved" "Running \<noteq> Aborted"
  "Paused \<noteq> Saved" "Paused \<noteq> Aborted" "Saved \<noteq> Aborted"
  by (simp_all add: Poweroff_def Running_def Paused_def Saved_def Aborted_def)

text \<open>
  Claim C1. For every machine, every state of the outside and each of the five named
  cached states, the lifecycle operations follow the routing table. \<open>Start\<close> from paused
  issues the resume command and nothing else, from poweroff, saved or aborted the headless
  start command and nothing else, and from running nothing. \<open>Save\<close> from poweroff, aborted
  or saved, \<open>Pause\<close> from paused, poweroff, aborted or saved, \<open>Stop\<close> and \<open>Poweroff\<close> from
  poweroff, aborted or saved issue nothing, return no error and leave the outside as it
  was; \<open>Poweroff\<close> from the other two states issues exactly the forceful poweroff command.
  (\<open>Save\<close> and \<open>Pause\<close> of a running machine issue their one command.) A call of \<open>vbm\<close> adds
  exactly its own command to the trace.
\<close>

theorem lifecycle_routing:
  "(State m = Paused \<longrightarrow>
      Machine_Start env m s = vbm env [''controlvm'', Name m, ''resume''] s)
   \<and> (State m \<in> {Poweroff, Saved, Aborted} \<longrightarrow>
      Machine_Start env m s = vbm env [''startvm'', Name m, ''--type'', ''headless''] s)
   \<and> (State m = Running \<longrightarrow> Machine_Start env m s = (None, s))
   \<and> (State m \<in> {Poweroff, Aborted, Saved} \<longrightarrow> Machine_Save env m s = (None, s))
   \<and> (State m = Running \<longrightarrow>
      Machine_Save env m s = vbm env [''controlvm'', Name m, ''savestate''] s)
   \<and> (State m \<in> {Paused, Poweroff, Aborted, Saved} \<longrightarrow> Machine_Pause env m s = (None, s))
   \<and> (State m = Running \<longrightarrow>
      Machine_Pause env m s = vbm env [''controlvm'', Name m, ''pause''] s)
   \<and> (State m \<in> {Poweroff, Aborted, Saved} \<longrightarrow> Machine_Stop env m s = Some (None, m, s))
   \<and> (State m \<in> {Poweroff, Aborted, Saved} \<longrightarrow> Machine_Poweroff env m s = (None, s))
   \<and> (State m \<in> {Running, Paused} \<longrightarrow>
      Machine_Poweroff env m s = vbm env [''controlvm'', Name m, ''poweroff''] s)
   \<and> (\<forall>args. trace (snd (vbm env args s)) = trace s @ [Cmd args])"
proof -
  have start: "(State m = Paused \<longrightarrow>
        Machine_Start env m s = vbm env [''controlvm'', Name m, ''resume''] s)
   \<and> (State m \<in> {Poweroff, Saved, Aborted} \<longrightarrow>
        Machine_Start env m s = vbm env [''startvm'', Name m, ''--type'', ''headless''] s)
   \<and> (State m = Running \<longrightarrow> Machine_Start env m s = (None, s))"
    using state_names_distinct by (auto simp: Machine_Start_def)
  have save: "(State m \<in> {Poweroff, Aborted, Saved} \<longrightarrow> Machine_Save env m s = (None, s))
   \<and> (State m = Running \<longrightarrow>
        Machine_Save env m s = vbm env [''controlvm'', Name m, ''savestate''] s)"
    using state_names_distinct by (auto simp: Machine_Save_def)
  have pause: "(State m \<in> {Paused, Poweroff, Aborted, Saved} \<longrightarrow>
        Machine_Pause env m s = (None, s))
   \<and> (State m = Running \<longrightarrow>
        Machine_Pause env m s = vbm env [''controlvm'', Name m, ''pause''] s)"
    using state_names_distinct by (auto simp: Machine_Pause_def)
  have stop: "State m \<in> {Poweroff, Aborted, Saved} \<longrightarrow>
        Machine_Stop env m s = Some (None, m, s)"
    by (auto simp: Machine_Stop_def)
  have poweroff: "(State m \<in> {Poweroff, Aborted, Saved} \<longrightarrow>
        Machine_Poweroff env m s = (None, s))
   \<and> (State m \<in> {Running, Paused} \<longrightarrow>
        Machine_Poweroff env m s = vbm env [''controlvm'', Name m, ''poweroff''] s)"
    using state_names_distinct by (auto simp: Machine_Poweroff_def)
  from start save pause stop poweroff vbm_trace show ?thesis by blast
qed

lemma scripted_vbm:
  "vbm (scripted f) args s
     = (snd (snd (f (world s) args)), \<lparr>world = Suc (world s), trace = trace s @ [Cmd args]\<rparr>)"
  by (simp add: vbm_def vbmOutErr_def scripted_def split: prod.splits)

lemma steady_other:
  "hd args \<noteq> ''showvminfo'' \<Longrightarrow> steady st n args = ([], [], None)"
  by (simp add: steady_def)

theorem lifecycle_routing_witness:
  "Machine_Start (scripted (steady Paused)) (demo_machine Paused) sys0
     = (None, \<lparr>world = 1, trace = [Cmd [''controlvm'', ''demo'', ''resume'']]\<rparr>)
   \<and> Machine_Start (scripted (steady Saved)) (demo_machine Saved) sys0
     = (None, \<lparr>world = 1, trace = [Cmd [''startvm'', ''demo'', ''--type'', ''headless'']]\<rparr>)
   \<and> Machine_Start (scripted (steady Running)) (demo_machine Running) sys0 = (None, sys0)
   \<and> Machine_Save (scripted (steady Saved)) (demo_machine Saved) sys0 = (None, sys0)
   \<and> Machine_Pause (scripted (steady Paused)) (demo_machine Paused) sys0 = (None, sys0)
   \<and> Machine_Stop (scripted (steady Saved)) (demo_machine Saved) sys0
     = Some (None, demo_machine Saved, sys0)
   \<and> Machine_Poweroff (scripted (steady Saved)) (demo_machine Saved) sys0 = (None, sys0)
   \<and> Machine_Poweroff (scripted (steady Running)) (demo_machine Running) sys0
     = (None, \<lparr>world = 1, trace = [Cmd [''controlvm'', ''demo'', ''poweroff'']]\<rparr>)"
proof -
  have st [simp]: "State (demo_machine x) = x" "Name (demo_machine x) = ''demo''" for x
    by (simp_all add: demo_machine_def)
  note p = lifecycle_routing [of "demo_machine Paused" "scripted (steady Paused)" sys0]
  note v = lifecycle_routing [of "demo_machine Saved" "scripted (steady Saved)" sys0]
  note r = lifecycle_routing [of "demo_machine Running" "scripted (steady Running)" sys0]
  from p v r show ?thesis
    by (simp add: state_names_distinct state_names_distinct [symmetric] scripted_vbm
        steady_other sys0_def)
qed

section \<open>Scanning and parsing\<close>

lemma scan_from_line:
  "CHR 0x0A \<notin> set l \<Longrightarrow>
   scan_from tok (l @ CHR 0x0A # rest) =
     (if MaxScanTokenSize \<le> length (tok @ l) then ([], Some ErrTooLong)
      else (case scan_from [] rest of (ls, e) \<Rightarrow> (dropCR (tok @ l) # ls, e)))"
  by (induction l arbitrary: tok) auto

lemma scan_from_last:
  "CHR 0x0A \<notin> set l \<Longrightarrow>
   scan_from tok l =
     (if tok @ l = [] then ([], None)
      else if MaxScanTokenSize \<le> length (tok @ l) then ([], Some ErrTooLong)
      else ([dropCR (tok @ l)], None))"
  by (induction l arbitrary: tok) auto

lemma scanLines_text_of_lines:
  "\<forall>l \<in> set ls. CHR 0x0A \<notin> set l \<and> length l < MaxScanTokenSize \<Longrightarrow>
   scanLines (text_of_lines ls) = (map dropCR ls, None)"
proof (induction ls)
  case Nil
  then show ?case by (simp add: scanLines_def text_of_lines_def)
next
  case (Cons l ls)
  then have "scan_from [] (text_of_lines ls) = (map dropCR ls, None)"
    by (simp add: scanLines_def)
  with Cons.prems show ?case
    using scan_from_line [of l "[]" "text_of_lines ls"]
    by (simp add: scanLines_def text_of_lines_def)
qed

lemma parse_digits_nondigit:
  "\<exists>c \<in> set cs. \<not> is_digit c \<Longrightarrow> isl (parse_digits s0 n cs)"
  by (induction cs arbitrary: n) auto

lemma ParseUint_non_numeric:
  "val = [] \<or> (\<exists>c \<in> set val. \<not> is_digit c) \<Longrightarrow> isl (ParseUint_10_32 val)"
  using parse_digits_nondigit by (auto simp: ParseUint_10_32_def)

lemma info_line_bad_number:
  assumes "info_key_val env l = Some (key, val)"
    and "key \<in> {''memory'', ''cpus'', ''vram''}"
    and "isl (ParseUint_10_32 val)"
  shows "isl (info_line env l m)"
  using assms by (auto simp: info_line_def split: sum.splits)

lemma info_loop_bad_number:
  assumes "l \<in> set ls"
    and "info_key_val env l = Some (key, val)"
    and "key \<in> {''memory'', ''cpus'', ''vram''}"
    and "isl (ParseUint_10_32 val)"
  shows "isl (info_loop env ls m)"
  using assms(1)
proof (induction ls arbitrary: m)
  case Nil
  then show ?case by simp
next
  case (Cons a ls)
  show ?case
  proof (cases "info_line env a m")
    case (Inl e)
    then show ?thesis by simp
  next
    case (Inr m')
    with Cons.prems info_line_bad_number [OF assms(2-4), of m] have "l \<in> set ls"
      by auto
    with Cons.IH Inr show ?thesis by simp
  qed
qed

lemma parse_info_bad_number:
  assumes "scanLines out = (ls, serr)" "l \<in> set ls"
    and "info_key_val env l = Some (key, val)"
    and "key \<in> {''memory'', ''cpus'', ''vram''}"
    and "isl (ParseUint_10_32 val)"
  shows "isl (parse_info env out)"
  using info_loop_bad_number [OF assms(2-5), of zero_Machine] assms(1)
  by (auto simp: parse_info_def split: sum.splits option.splits)

lemma GetMachine_exec_ok:
  "exec env [''showvminfo'', i, ''--machinereadable''] (world s) = ((out, errs, None), w')
   \<Longrightarrow> GetMachine env i s
       = (parse_info env out,
          \<lparr>world = w', trace = trace s @ [Cmd [''showvminfo'', i, ''--machinereadable'']]\<rparr>)"
  by (simp add: GetMachine_def vbmOutErr_def)

lemma GetMachine_exec_fails:
  "exec env [''showvminfo'', i, ''--machinereadable''] (world s) = ((out, errs, Some e), w')
   \<Longrightarrow> GetMachine env i s
       = (Inl (if reMachineNotFound env errs \<noteq> [] then ErrMachineNotExist else e),
          \<lparr>world = w', trace = trace s @ [Cmd [''showvminfo'', i, ''--machinereadable'']]\<rparr>)"
  by (simp add: GetMachine_def vbmOutErr_def)

lemma Refresh_cases:
  "Machine_Refresh env m s =
     (case GetMachine env (if Name m = [] then UUID m else Name m) s of
        (Inl e, s') \<Rightarrow> (Some e, m, s')
      | (Inr mm, s') \<Rightarrow> (None, mm, s'))"
  by (simp add: Machine_Refresh_def)

text \<open>Evaluating the parser on the scripted host.\<close>

lemmas line_eval =
  info_line_def info_key_val_def vmInfoLine_def quoted_key_def bare_key_def info_value_def
  ParseUint_10_32_def is_digit_def digit_val_def Dir_def Clean_def zero_Machine_def

lemma scripted_fields:
  "exec (scripted f) = (\<lambda>args n. (f n args, Suc n))"
  "elapse (scripted f) = (\<lambda>d n. n)"
  "reVMInfoLine (scripted f) = vmInfoLine"
  "reVMNameUUID (scripted f) = vmNameUUID"
  "reMachineNotFound (scripted f) = machineNotFound"
  by (simp_all add: scripted_def)

lemma scripted_GetMachine_ok:
  "f (world s) [''showvminfo'', i, ''--machinereadable''] = (out, errs, None)
   \<Longrightarrow> GetMachine (scripted f) i s
       = (parse_info (scripted f) out,
          \<lparr>world = Suc (world s),
           trace = trace s @ [Cmd [''showvminfo'', i, ''--machinereadable'']]\<rparr>)"
  by (rule GetMachine_exec_ok) (simp add: scripted_fields)

lemma dropCR_demo_lines: "map dropCR (demo_lines st) = demo_lines st"
  by (simp add: demo_lines_def dropCR_def)

text \<open>
  Claim C3. \<open>Refresh\<close> is all or nothing. With \<open>id\<close> the name of the machine, or its UUID
  when the name is empty: when \<open>GetMachine id\<close> fails, \<open>Refresh\<close> returns that error and the
  machine is exactly what it was; when it succeeds, the machine is exactly the freshly
  parsed one. A machine returned together with an error is always the old one. The
  re-query failing, or a scanned line whose key is memory, cpus or vram with a value that
  is empty or has a character that is no digit, makes \<open>Refresh\<close> return an error and leave
  the machine as it was.
\<close>

theorem Refresh_all_or_nothing:
  "(\<forall>e s'. GetMachine env (if Name m = [] then UUID m else Name m) s = (Inl e, s')
       \<longrightarrow> Machine_Refresh env m s = (Some e, m, s'))
   \<and> (\<forall>mm s'. GetMachine env (if Name m = [] then UUID m else Name m) s = (Inr mm, s')
       \<longrightarrow> Machine_Refresh env m s = (None, mm, s'))
   \<and> (\<forall>e m' s'. Machine_Refresh env m s = (Some e, m', s') \<longrightarrow> m' = m)
   \<and> (\<forall>out errs e w'.
         exec env [''showvminfo'', if Name m = [] then UUID m else Name m, ''--machinereadable'']
           (world s) = ((out, errs, Some e), w')
       \<longrightarrow> (\<exists>e' s'. Machine_Refresh env m s = (Some e', m, s')))
   \<and> (\<forall>out errs w' ls serr l key val.
         exec env [''showvminfo'', if Name m = [] then UUID m else Name m, ''--machinereadable'']
           (world s) = ((out, errs, None), w')
         \<and> scanLines out = (ls, serr) \<and> l \<in> set ls
         \<and> info_key_val env l = Some (key, val)
         \<and> key \<in> {''memory'', ''cpus'', ''vram''}
         \<and> (val = [] \<or> (\<exists>c \<in> set val. \<not> is_digit c))
       \<longrightarrow> (\<exists>e' s'. Machine_Refresh env m s = (Some e', m, s')))"
proof -
  let ?i = "if Name m = [] then UUID m else Name m"
  have a: "\<forall>e s'. GetMachine env ?i s = (Inl e, s')
       \<longrightarrow> Machine_Refresh env m s = (Some e, m, s')"
    by (simp add: Refresh_cases)
  have b: "\<forall>mm s'. GetMachine env ?i s = (Inr mm, s')
       \<longrightarrow> Machine_Refresh env m s = (None, mm, s')"
    by (simp add: Refresh_cases)
  have c: "\<forall>e m' s'. Machine_Refresh env m s = (Some e, m', s') \<longrightarrow> m' = m"
    by (auto simp: Refresh_cases split: prod.splits sum.splits)
  have d: "\<forall>out errs e w'.
         exec env [''showvminfo'', ?i, ''--machinereadable''] (world s) = ((out, errs, Some e), w')
       \<longrightarrow> (\<exists>e' s'. Machine_Refresh env m s = (Some e', m, s'))"
  proof (intro allI impI)
    fix out errs e w'
    assume "exec env [''showvminfo'', ?i, ''--machinereadable''] (world s)
        = ((out, errs, Some e), w')"
    from GetMachine_exec_fails [OF this]
    show "\<exists>e' s'. Machine_Refresh env m s = (Some e', m, s')"
      by (simp add: Refresh_cases)
  qed
  have e: "\<forall>out errs w' ls serr l key val.
         exec env [''showvminfo'', ?i, ''--machinereadable''] (world s) = ((out, errs, None), w')
         \<and> scanLines out = (ls, serr) \<and> l \<in> set ls
         \<and> info_key_val env l = Some (key, val)
         \<and> key \<in> {''memory'', ''cpus'', ''vram''}
         \<and> (val = [] \<or> (\<exists>c \<in> set val. \<not> is_digit c))
       \<longrightarrow> (\<exists>e' s'. Machine_Refresh env m s = (Some e', m, s'))"
  proof (intro allI impI, elim conjE)
    fix out errs w' ls serr l key val
    assume ex: "exec env [''showvminfo'', ?i, ''--machinereadable''] (world s)
        = ((out, errs, None), w')"
      and sc: "scanLines out = (ls, serr)" and l: "l \<in> set ls"
      and kv: "info_key_val env l = Some (key, val)"
      and k: "key \<in> {''memory'', ''cpus'', ''vram''}"
      and v: "val = [] \<or> (\<exists>c \<in> set val. \<not> is_digit c)"
    from parse_info_bad_number [OF sc l kv k ParseUint_non_numeric [OF v]]
    obtain e' where "parse_info env out = Inl e'" by (cases "parse_info env out") auto
    with GetMachine_exec_ok [OF ex]
    show "\<exists>e' s'. Machine_Refresh env m s = (Some e', m, s')"
      by (simp add: Refresh_cases)
  qed
  from a b c d e show ?thesis by (intro conjI)
qed

lemma parse_info_bad_memory:
  "parse_info (scripted f)
     (text_of_lines [''name=\"demo\"'', ''memory=abc'', ''VMState=\"paused\"''])
   = Inl (ErrSyntax ''abc'')"
proof -
  have "scanLines (text_of_lines [''name=\"demo\"'', ''memory=abc'', ''VMState=\"paused\"''])
      = ([''name=\"demo\"'', ''memory=abc'', ''VMState=\"paused\"''], None)"
    by (subst scanLines_text_of_lines) (simp_all add: MaxScanTokenSize_def dropCR_def)
  then show ?thesis
    by (simp add: parse_info_def scripted_fields line_eval)
qed

lemma parse_info_demo_paused:
  "parse_info (scripted f) (text_of_lines (demo_lines Paused)) = Inr (demo_machine Paused)"
proof -
  have "scanLines (text_of_lines (demo_lines Paused)) = (demo_lines Paused, None)"
    by (subst scanLines_text_of_lines)
      (simp_all add: demo_lines_def Paused_def MaxScanTokenSize_def dropCR_def)
  then show ?thesis
    by (simp add: parse_info_def scripted_fields line_eval demo_lines_def demo_machine_def
        Paused_def)
qed

theorem Refresh_all_or_nothing_witness:
  "Machine_Refresh (scripted bad_memory) (demo_machine Running) sys0
     = (Some (ErrSyntax ''abc''), demo_machine Running,
        \<lparr>world = 1, trace = [Cmd [''showvminfo'', ''demo'', ''--machinereadable'']]\<rparr>)
   \<and> Machine_Refresh (scripted (steady Paused)) (demo_machine Running) sys0
     = (None, demo_machine Paused,
        \<lparr>world = 1, trace = [Cmd [''showvminfo'', ''demo'', ''--machinereadable'']]\<rparr>)"
proof -
  have n [simp]: "Name (demo_machine Running) = ''demo''"
    by (simp add: demo_machine_def)
  have bad: "GetMachine (scripted bad_memory) ''demo'' sys0
     = (Inl (ErrSyntax ''abc''),
        \<lparr>world = 1, trace = [Cmd [''showvminfo'', ''demo'', ''--machinereadable'']]\<rparr>)"
    by (subst scripted_GetMachine_ok [where out = "fst (bad_memory 0 [])" and errs = "[]"])
      (simp_all add: bad_memory_def parse_info_bad_memory sys0_def)
  have good: "GetMachine (scripted (steady Paused)) ''demo'' sys0
     = (Inr (demo_machine Paused),
        \<lparr>world = 1, trace = [Cmd [''showvminfo'', ''demo'', ''--machinereadable'']]\<rparr>)"
    by (subst scripted_GetMachine_ok [where out = "text_of_lines (demo_lines Paused)"
          and errs = "[]"])
      (simp_all add: steady_def parse_info_demo_paused sys0_def)
  from Refresh_all_or_nothing [of "scripted bad_memory" "demo_machine Running" sys0] bad
  have "Machine_Refresh (scripted bad_memory) (demo_machine Running) sys0
     = (Some (ErrSyntax ''abc''), demo_machine Running,
        \<lparr>world = 1, trace = [Cmd [''showvminfo'', ''demo'', ''--machinereadable'']]\<rparr>)"
    by simp
  moreover
  from Refresh_all_or_nothing [of "scripted (steady Paused)" "demo_machine Running" sys0] good
  have "Machine_Refresh (scripted (steady Paused)) (demo_machine Running) sys0
     = (None, demo_machine Paused,
        \<lparr>world = 1, trace = [Cmd [''showvminfo'', ''demo'', ''--machinereadable'']]\<rparr>)"
    by simp
  ultimately show ?thesis by blast
qed

section \<open>Stopping a machine\<close>

lemma GetMachine_trace:
  "trace (snd (GetMachine env i s)) = trace s @ [Cmd [''showvminfo'', i, ''--machinereadable'']]"
  by (auto simp: GetMachine_def vbmOutErr_def split: prod.splits option.splits)

lemma Refresh_trace:
  "Machine_Refresh env m s = (r, m', s') \<Longrightarrow>
   trace s' = trace s
     @ [Cmd [''showvminfo'', if Name m = [] then UUID m else Name m, ''--machinereadable'']]"
  using GetMachine_trace [of env "if Name m = [] then UUID m else Name m" s]
  by (auto simp: Refresh_cases split: prod.splits sum.splits)

lemma Stop_loop_done:
  "State m = Poweroff \<Longrightarrow> Stop_loop env m s = Some (None, m, s)"
  by (subst Stop_loop.simps) simp

lemma Stop_loop_button_fails:
  "State m \<noteq> Poweroff \<Longrightarrow>
   vbm env [''controlvm'', Name m, ''acpipowerbutton''] s = (Some e, s1) \<Longrightarrow>
   Stop_loop env m s = Some (Some e, m, s1)"
  by (subst Stop_loop.simps) simp

lemma Stop_loop_refresh_fails:
  "State m \<noteq> Poweroff \<Longrightarrow>
   vbm env [''controlvm'', Name m, ''acpipowerbutton''] s = (None, s1) \<Longrightarrow>
   Machine_Refresh env m (time_Sleep env (1 * Second) s1) = (Some e, m', s2) \<Longrightarrow>
   Stop_loop env m s = Some (Some e, m', s2)"
  by (subst Stop_loop.simps) simp

lemma Stop_loop_again:
  "State m \<noteq> Poweroff \<Longrightarrow>
   vbm env [''controlvm'', Name m, ''acpipowerbutton''] s = (None, s1) \<Longrightarrow>
   Machine_Refresh env m (time_Sleep env (1 * Second) s1) = (None, m', s2) \<Longrightarrow>
   Stop_loop env m s = Stop_loop env m' s2"
  by (subst Stop_loop.simps) simp

lemma Stop_loop_success:
  assumes "Stop_loop env m s = Some y"
  shows "\<forall>m' s'. y = (None, m', s') \<longrightarrow>
           State m' = Poweroff \<and>
           (\<exists>rounds. list_all poll_round rounds \<and> trace s' = trace s @ concat rounds
              \<and> (State m \<noteq> Poweroff \<longrightarrow> rounds \<noteq> []))"
  using assms
proof (induction rule: Stop_loop.raw_induct [rotated 1, consumes 1, case_names step])
  case (step loop env m s y)
  show ?case
  proof (intro allI impI)
    fix m' s'
    assume y: "y = (None, m', s')"
    show "State m' = Poweroff \<and>
           (\<exists>rounds. list_all poll_round rounds \<and> trace s' = trace s @ concat rounds
              \<and> (State m \<noteq> Poweroff \<longrightarrow> rounds \<noteq> []))"
    proof (cases "State m = Poweroff")
      case True
      with step.hyps y have "m' = m" "s' = s" by simp_all
      with True show ?thesis by (intro conjI exI [of _ "[]"]) simp_all
    next
      case False
      obtain r s1 where b: "vbm env [''controlvm'', Name m, ''acpipowerbutton''] s = (r, s1)"
        by (cases "vbm env [''controlvm'', Name m, ''acpipowerbutton''] s")
      obtain r2 m2 s2 where
        f: "Machine_Refresh env m (time_Sleep env (1 * Second) s1) = (r2, m2, s2)"
        by (cases "Machine_Refresh env m (time_Sleep env (1 * Second) s1)")
      from step.hyps False b f y have r: "r = None" "r2 = None" and l: "loop env m2 s2 = Some y"
        by (auto split: option.splits)
      from step.IH [OF l] y obtain rounds where
        p: "State m' = Poweroff" "list_all poll_round rounds"
           "trace s' = trace s2 @ concat rounds"
        by blast
      let ?round = "[Cmd [''controlvm'', Name m, ''acpipowerbutton''], Sleep Second,
          Cmd [''showvminfo'', if Name m = [] then UUID m else Name m, ''--machinereadable'']]"
      from vbm_trace [of env "[''controlvm'', Name m, ''acpipowerbutton'']" s] b
      have "trace s1 = trace s @ [Cmd [''controlvm'', Name m, ''acpipowerbutton'']]"
        by simp
      with Refresh_trace [OF f] have "trace s2 = trace s @ ?round"
        by (simp add: time_Sleep_def)
      with p have "list_all poll_round (?round # rounds)"
        "trace s' = trace s @ concat (?round # rounds)"
        by simp_all
      with p(1) show ?thesis by blast
    qed
  qed
qed

lemma Stop_loop_returns:
  assumes "Stop_loop env m s = Some y"
  shows "(\<forall>m1 s1. State m1 \<noteq> Poweroff \<longrightarrow>
      (\<exists>s2 m2 s3. vbm env [''controlvm'', Name m1, ''acpipowerbutton''] s1 = (None, s2)
         \<and> Machine_Refresh env m1 (time_Sleep env (1 * Second) s2) = (None, m2, s3)
         \<and> State m2 \<noteq> Poweroff))
     \<longrightarrow> State m = Poweroff"
  using assms
proof (induction rule: Stop_loop.raw_induct [rotated 1, consumes 1, case_names step])
  case (step loop env m s y)
  show ?case
  proof (intro impI, rule ccontr)
    assume live: "\<forall>m1 s1. State m1 \<noteq> Poweroff \<longrightarrow>
      (\<exists>s2 m2 s3. vbm env [''controlvm'', Name m1, ''acpipowerbutton''] s1 = (None, s2)
         \<and> Machine_Refresh env m1 (time_Sleep env (1 * Second) s2) = (None, m2, s3)
         \<and> State m2 \<noteq> Poweroff)"
      and m: "State m \<noteq> Poweroff"
    from live m obtain s2 m2 s3 where
      st: "vbm env [''controlvm'', Name m, ''acpipowerbutton''] s = (None, s2)"
        "Machine_Refresh env m (time_Sleep env (1 * Second) s2) = (None, m2, s3)"
        "State m2 \<noteq> Poweroff"
      by blast
    with step.hyps m have "loop env m2 s3 = Some y" by simp
    from step.IH [OF this] live st(3) show False by blast
  qed
qed

lemma Stop_loop_never:
  assumes "\<forall>m1 s1. State m1 \<noteq> Poweroff \<longrightarrow>
      (\<exists>s2 m2 s3. vbm env [''controlvm'', Name m1, ''acpipowerbutton''] s1 = (None, s2)
         \<and> Machine_Refresh env m1 (time_Sleep env (1 * Second) s2) = (None, m2, s3)
         \<and> State m2 \<noteq> Poweroff)"
    and "State m \<noteq> Poweroff"
  shows "Stop_loop env m s = None"
proof (cases "Stop_loop env m s")
  case None
  then show ?thesis .
next
  case (Some y)
  from Stop_loop_returns [OF this] assms show ?thesis by blast
qed

text \<open>
  Claim C2. For a machine whose cached state is not poweroff, aborted or saved: when \<open>Stop\<close>
  returns without error, the machine it leaves has the state poweroff, and what it did to
  the outside is, after the resume command when the cached state was paused, one or more
  rounds, each being one power button command, one sleep of one second and one query of
  \<open>Refresh\<close>. In any round of the loop an error of the power button command, or of the
  refresh after the sleep, is returned at once with the machine unchanged. The loop has no
  bound: on a host where the button and the refresh never fail and the refreshed state is
  never poweroff, \<open>Stop\<close> does not return.
\<close>

theorem Stop_polls_until_poweroff:
  assumes "State m \<notin> {Poweroff, Aborted, Saved}"
  shows
    "(\<forall>m' s'. Machine_Stop env m s = Some (None, m', s') \<longrightarrow>
        State m' = Poweroff \<and>
        (\<exists>rounds. rounds \<noteq> [] \<and> list_all poll_round rounds \<and>
           trace s' = trace s
             @ (if State m = Paused then [Cmd [''controlvm'', Name m, ''resume'']] else [])
             @ concat rounds))
     \<and> (\<forall>e s0. State m = Paused \<and> Machine_Start env m s = (Some e, s0) \<longrightarrow>
           Machine_Stop env m s = Some (Some e, m, s0))
     \<and> (\<forall>s0. State m = Paused \<and> Machine_Start env m s = (None, s0) \<longrightarrow>
           Machine_Stop env m s = Stop_loop env m s0)
     \<and> (State m \<noteq> Paused \<longrightarrow> Machine_Stop env m s = Stop_loop env m s)
     \<and> (\<forall>m1 s1 e s2.
           State m1 \<noteq> Poweroff
           \<and> vbm env [''controlvm'', Name m1, ''acpipowerbutton''] s1 = (Some e, s2) \<longrightarrow>
           Stop_loop env m1 s1 = Some (Some e, m1, s2))
     \<and> (\<forall>m1 s1 s2 e m2 s3.
           State m1 \<noteq> Poweroff
           \<and> vbm env [''controlvm'', Name m1, ''acpipowerbutton''] s1 = (None, s2)
           \<and> Machine_Refresh env m1 (time_Sleep env (1 * Second) s2) = (Some e, m2, s3) \<longrightarrow>
           Stop_loop env m1 s1 = Some (Some e, m1, s3))
     \<and> (\<forall>m1 s1 s2 m2 s3.
           State m1 \<noteq> Poweroff
           \<and> vbm env [''controlvm'', Name m1, ''acpipowerbutton''] s1 = (None, s2)
           \<and> Machine_Refresh env m1 (time_Sleep env (1 * Second) s2) = (None, m2, s3) \<longrightarrow>
           Stop_loop env m1 s1 = Stop_loop env m2 s3)
     \<and> ((\<forall>m1 s1. State m1 \<noteq> Poweroff \<longrightarrow>
            (\<exists>s2 m2 s3. vbm env [''controlvm'', Name m1, ''acpipowerbutton''] s1 = (None, s2)
               \<and> Machine_Refresh env m1 (time_Sleep env (1 * Second) s2) = (None, m2, s3)
               \<and> State m2 \<noteq> Poweroff))
          \<and> (State m = Paused \<longrightarrow> fst (Machine_Start env m s) = None)
         \<longrightarrow> Machine_Stop env m s = None)"
proof -
  from assms have ns: "State m \<noteq> Poweroff" "State m \<noteq> Aborted" "State m \<noteq> Saved"
    by simp_all
  have entry_paused_err: "\<forall>e s0. State m = Paused \<and> Machine_Start env m s = (Some e, s0) \<longrightarrow>
           Machine_Stop env m s = Some (Some e, m, s0)"
    using ns by (simp add: Machine_Stop_def)
  have entry_paused: "\<forall>s0. State m = Paused \<and> Machine_Start env m s = (None, s0) \<longrightarrow>
           Machine_Stop env m s = Stop_loop env m s0"
    using ns by (simp add: Machine_Stop_def)
  have entry: "State m \<noteq> Paused \<longrightarrow> Machine_Stop env m s = Stop_loop env m s"
    using ns by (simp add: Machine_Stop_def)
  have success: "\<forall>m' s'. Machine_Stop env m s = Some (None, m', s') \<longrightarrow>
        State m' = Poweroff \<and>
        (\<exists>rounds. rounds \<noteq> [] \<and> list_all poll_round rounds \<and>
           trace s' = trace s
             @ (if State m = Paused then [Cmd [''controlvm'', Name m, ''resume'']] else [])
             @ concat rounds)"
  proof (intro allI impI)
    fix m' s'
    assume ret: "Machine_Stop env m s = Some (None, m', s')"
    show "State m' = Poweroff \<and>
        (\<exists>rounds. rounds \<noteq> [] \<and> list_all poll_round rounds \<and>
           trace s' = trace s
             @ (if State m = Paused then [Cmd [''controlvm'', Name m, ''resume'']] else [])
             @ concat rounds)"
    proof (cases "State m = Paused")
      case True
      obtain r s0 where st: "Machine_Start env m s = (r, s0)"
        by (cases "Machine_Start env m s")
      with ret ns True have r: "r = None" and l: "Stop_loop env m s0 = Some (None, m', s')"
        by (auto simp: Machine_Stop_def split: option.splits)
      from st True have "vbm env [''controlvm'', Name m, ''resume''] s = (r, s0)"
        by (simp add: Machine_Start_def)
      with vbm_trace [of env "[''controlvm'', Name m, ''resume'']" s]
      have "trace s0 = trace s @ [Cmd [''controlvm'', Name m, ''resume'']]" by simp
      with Stop_loop_success [OF l] ns True show ?thesis by auto
    next
      case False
      with ret entry have "Stop_loop env m s = Some (None, m', s')" by simp
      from Stop_loop_success [OF this] ns False show ?thesis by auto
    qed
  qed
  have button: "\<forall>m1 s1 e s2.
           State m1 \<noteq> Poweroff
           \<and> vbm env [''controlvm'', Name m1, ''acpipowerbutton''] s1 = (Some e, s2) \<longrightarrow>
           Stop_loop env m1 s1 = Some (Some e, m1, s2)"
    using Stop_loop_button_fails by blast
  have refresh: "\<forall>m1 s1 s2 e m2 s3.
           State m1 \<noteq> Poweroff
           \<and> vbm env [''controlvm'', Name m1, ''acpipowerbutton''] s1 = (None, s2)
           \<and> Machine_Refresh env m1 (time_Sleep env (1 * Second) s2) = (Some e, m2, s3) \<longrightarrow>
           Stop_loop env m1 s1 = Some (Some e, m1, s3)"
  proof (intro allI impI, elim conjE)
    fix m1 s1 s2 e m2 s3
    assume a: "State m1 \<noteq> Poweroff"
      "vbm env [''controlvm'', Name m1, ''acpipowerbutton''] s1 = (None, s2)"
      "Machine_Refresh env m1 (time_Sleep env (1 * Second) s2) = (Some e, m2, s3)"
    from a(3) have "m2 = m1"
      by (auto simp: Refresh_cases split: prod.splits sum.splits)
    with Stop_loop_refresh_fails [OF a] show "Stop_loop env m1 s1 = Some (Some e, m1, s3)"
      by simp
  qed
  have again: "\<forall>m1 s1 s2 m2 s3.
           State m1 \<noteq> Poweroff
           \<and> vbm env [''controlvm'', Name m1, ''acpipowerbutton''] s1 = (None, s2)
           \<and> Machine_Refresh env m1 (time_Sleep env (1 * Second) s2) = (None, m2, s3) \<longrightarrow>
           Stop_loop env m1 s1 = Stop_loop env m2 s3"
    using Stop_loop_again by blast
  have never: "(\<forall>m1 s1. State m1 \<noteq> Poweroff \<longrightarrow>
            (\<exists>s2 m2 s3. vbm env [''controlvm'', Name m1, ''acpipowerbutton''] s1 = (None, s2)
               \<and> Machine_Refresh env m1 (time_Sleep env (1 * Second) s2) = (None, m2, s3)
               \<and> State m2 \<noteq> Poweroff))
          \<and> (State m = Paused \<longrightarrow> fst (Machine_Start env m s) = None)
         \<longrightarrow> Machine_Stop env m s = None"
  proof (intro impI, elim conjE)
    assume live: "\<forall>m1 s1. State m1 \<noteq> Poweroff \<longrightarrow>
            (\<exists>s2 m2 s3. vbm env [''controlvm'', Name m1, ''acpipowerbutton''] s1 = (None, s2)
               \<and> Machine_Refresh env m1 (time_Sleep env (1 * Second) s2) = (None, m2, s3)
               \<and> State m2 \<noteq> Poweroff)"
      and resume: "State m = Paused \<longrightarrow> fst (Machine_Start env m s) = None"
    show "Machine_Stop env m s = None"
    proof (cases "State m = Paused")
      case True
      with resume obtain s0 where "Machine_Start env m s = (None, s0)"
        by (cases "Machine_Start env m s") auto
      with entry_paused True Stop_loop_never [OF live ns(1)] show ?thesis by simp
    next
      case False
      with entry Stop_loop_never [OF live ns(1)] show ?thesis by simp
    qed
  qed
  from success entry_paused_err entry_paused entry button refresh again never
  show ?thesis by (intro conjI)
qed

lemma parse_info_demo:
  assumes "st \<in> {Poweroff, Running, Paused, Saved, Aborted}"
  shows "parse_info (scripted f) (text_of_lines (demo_lines st)) = Inr (demo_machine st)"
proof -
  from assms have "scanLines (text_of_lines (demo_lines st)) = (demo_lines st, None)"
    by (subst scanLines_text_of_lines)
      (auto simp: demo_lines_def Poweroff_def Running_def Paused_def Saved_def Aborted_def
        MaxScanTokenSize_def dropCR_def)
  moreover from assms
  have "info_loop (scripted f) (demo_lines st) zero_Machine = Inr (demo_machine st)"
    by (elim insertE emptyE)
      (simp_all add: scripted_fields line_eval demo_lines_def demo_machine_def
        Poweroff_def Running_def Paused_def Saved_def Aborted_def)
  ultimately show ?thesis by (simp add: parse_info_def)
qed

lemma scripted_Refresh_demo:
  assumes "f (world s) [''showvminfo'', if Name m = [] then UUID m else Name m,
             ''--machinereadable''] = (text_of_lines (demo_lines st), errs, None)"
    and "st \<in> {Poweroff, Running, Paused, Saved, Aborted}"
  shows "Machine_Refresh (scripted f) m s
     = (None, demo_machine st,
        \<lparr>world = Suc (world s),
         trace = trace s @ [Cmd [''showvminfo'', if Name m = [] then UUID m else Name m,
             ''--machinereadable'']]\<rparr>)"
  using scripted_GetMachine_ok [where f = f and s = s, OF assms(1)] parse_info_demo [OF assms(2)]
  by (simp add: Refresh_cases)

lemma demo_machine_fields:
  "Name (demo_machine st) = ''demo''" "State (demo_machine st) = st"
  by (simp_all add: demo_machine_def)

lemma steady_live:
  "State m1 \<noteq> Poweroff \<Longrightarrow>
   \<exists>s2 m2 s3. vbm (scripted (steady Running)) [''controlvm'', Name m1, ''acpipowerbutton''] s1
       = (None, s2)
     \<and> Machine_Refresh (scripted (steady Running)) m1
         (time_Sleep (scripted (steady Running)) (1 * Second) s2) = (None, m2, s3)
     \<and> State m2 \<noteq> Poweroff"
proof -
  let ?s2 = "\<lparr>world = Suc (world s1),
      trace = trace s1 @ [Cmd [''controlvm'', Name m1, ''acpipowerbutton'']]\<rparr>"
  have "vbm (scripted (steady Running)) [''controlvm'', Name m1, ''acpipowerbutton''] s1
       = (None, ?s2)"
    by (simp add: scripted_vbm steady_def)
  moreover have "\<exists>s3. Machine_Refresh (scripted (steady Running)) m1
         (time_Sleep (scripted (steady Running)) (1 * Second) ?s2)
       = (None, demo_machine Running, s3)"
    by (subst scripted_Refresh_demo [where st = Running and errs = "[]"])
      (simp_all add: steady_def)
  ultimately show ?thesis
    using state_names_distinct by (auto simp: demo_machine_fields)
qed

theorem Stop_polls_until_poweroff_witness:
  "Machine_Stop (scripted (shutting_down 3)) (demo_machine Running) sys0
     = Some (None, demo_machine Poweroff,
         \<lparr>world = 4,
          trace = [Cmd [''controlvm'', ''demo'', ''acpipowerbutton''], Sleep 1000000000,
                   Cmd [''showvminfo'', ''demo'', ''--machinereadable''],
                   Cmd [''controlvm'', ''demo'', ''acpipowerbutton''], Sleep 1000000000,
                   Cmd [''showvminfo'', ''demo'', ''--machinereadable'']]\<rparr>)
   \<and> Machine_Stop (scripted (steady Running)) (demo_machine Running) sys0 = None"
proof -
  have run: "State (demo_machine Running) \<notin> {Poweroff, Aborted, Saved}"
    using state_names_distinct by (auto simp: demo_machine_fields)
  note down = Stop_polls_until_poweroff [OF run, of "scripted (shutting_down 3)" sys0]
  note never = Stop_polls_until_poweroff [OF run, of "scripted (steady Running)" sys0]
  let ?env = "scripted (shutting_down 3)"
  let ?b = "Cmd [''controlvm'', ''demo'', ''acpipowerbutton'']"
  let ?q = "Cmd [''showvminfo'', ''demo'', ''--machinereadable'']"
  let ?s1 = "\<lparr>world = 1, trace = [?b]\<rparr> :: nat sys"
  let ?s2 = "\<lparr>world = 2, trace = [?b, Sleep (1 * Second), ?q]\<rparr> :: nat sys"
  let ?s3 = "\<lparr>world = 3, trace = [?b, Sleep (1 * Second), ?q, ?b]\<rparr> :: nat sys"
  let ?s4 = "\<lparr>world = 4, trace = [?b, Sleep (1 * Second), ?q, ?b, Sleep (1 * Second), ?q]\<rparr> :: nat sys"
  have b1: "vbm ?env [''controlvm'', Name (demo_machine Running), ''acpipowerbutton''] sys0
      = (None, ?s1)"
    by (simp add: scripted_vbm shutting_down_def demo_machine_fields sys0_def)
  have r1: "Machine_Refresh ?env (demo_machine Running) (time_Sleep ?env (1 * Second) ?s1)
      = (None, demo_machine Running, ?s2)"
    by (subst scripted_Refresh_demo [where st = Running and errs = "[]"])
      (simp_all add: shutting_down_def time_Sleep_def scripted_fields demo_machine_fields)
  have b2: "vbm ?env [''controlvm'', Name (demo_machine Running), ''acpipowerbutton''] ?s2
      = (None, ?s3)"
    by (simp add: scripted_vbm shutting_down_def demo_machine_fields)
  have r2: "Machine_Refresh ?env (demo_machine Running) (time_Sleep ?env (1 * Second) ?s3)
      = (None, demo_machine Poweroff, ?s4)"
    by (subst scripted_Refresh_demo [where st = Poweroff and errs = "[]"])
      (simp_all add: shutting_down_def time_Sleep_def scripted_fields demo_machine_fields)
  have ne: "State (demo_machine Running) \<noteq> Poweroff" "State (demo_machine Running) \<noteq> Paused"
    using state_names_distinct by (auto simp: demo_machine_fields)
  from down ne(2) have "Machine_Stop ?env (demo_machine Running) sys0
      = Stop_loop ?env (demo_machine Running) sys0"
    by blast
  also from down ne(1) b1 r1 have "\<dots> = Stop_loop ?env (demo_machine Running) ?s2"
    by blast
  also from down ne(1) b2 r2 have "\<dots> = Stop_loop ?env (demo_machine Poweroff) ?s4"
    by blast
  also have "\<dots> = Some (None, demo_machine Poweroff, ?s4)"
    by (simp add: Stop_loop_done demo_machine_fields)
  finally have first: "Machine_Stop ?env (demo_machine Running) sys0
      = Some (None, demo_machine Poweroff, ?s4)" .
  from never ne(2) steady_live
  have "Machine_Stop (scripted (steady Running)) (demo_machine Running) sys0 = None"
    by blast
  with first show ?thesis by (simp add: Second_def)
qed

section \<open>Restarting a machine\<close>

lemma Restart_saved:
  assumes "State m = Saved"
  shows "Machine_Restart env m s =
     (case vbm env [''startvm'', Name m, ''--type'', ''headless''] s of
        (Some e, s1) \<Rightarrow> Some (Some e, m, s1)
      | (None, s1) \<Rightarrow>
          (case vbm env [''startvm'', Name m, ''--type'', ''headless''] s1 of
             (e, s2) \<Rightarrow> Some (e, m, s2)))"
  using assms state_names_distinct
  by (simp add: Machine_Restart_def Machine_Stop_def Machine_Start_def
      split: prod.splits option.splits)

text \<open>
  From a cached state of paused, \<open>Restart\<close> does reach the poll loop of \<open>Stop\<close>: when it
  returns without error, the machine it leaves has the state poweroff, the one the loop
  observed last.
\<close>

lemma Stop_success_state:
  assumes "State m \<noteq> Poweroff" "State m \<noteq> Aborted" "State m \<noteq> Saved"
    and "Machine_Stop env m s = Some (None, m', s')"
  shows "State m' = Poweroff"
proof -
  from assms obtain s0 where "Stop_loop env m s0 = Some (None, m', s')"
    by (auto simp: Machine_Stop_def split: if_splits prod.splits option.splits)
  from Stop_loop_success [OF this] show ?thesis by simp
qed

lemma Restart_paused:
  assumes "State m = Paused" and "Machine_Restart env m s = Some (None, m', s')"
  shows "State m' = Poweroff"
proof -
  from assms obtain s1 s2 where "Machine_Stop env m s1 = Some (None, m', s2)"
    by (auto simp: Machine_Restart_def split: prod.splits option.splits)
  moreover from assms(1) have "State m \<noteq> Poweroff" "State m \<noteq> Aborted" "State m \<noteq> Saved"
    using state_names_distinct by simp_all
  ultimately show ?thesis by (rule Stop_success_state [rotated 3])
qed

text \<open>
  Claim C4, at a machine whose cached state is saved, on a host where every command
  succeeds. \<open>Restart\<close> runs \<open>Start\<close>, which issues the start command and leaves the cached
  state at saved; \<open>Stop\<close> then returns at once, because the cached state is still saved;
  the second \<open>Start\<close> issues the start command again. No power button command and no
  query is issued, and the machine \<open>Restart\<close> leaves has the state saved, not poweroff.
\<close>

theorem Restart_saved_does_not_stop:
  "Machine_Restart (scripted (steady Running)) (demo_machine Saved) sys0
     = Some (None, demo_machine Saved,
         \<lparr>world = 2,
          trace = [Cmd [''startvm'', ''demo'', ''--type'', ''headless''],
                   Cmd [''startvm'', ''demo'', ''--type'', ''headless'']]\<rparr>)
   \<and> State (demo_machine Saved) \<noteq> Poweroff"
  using state_names_distinct
  by (simp add: Restart_saved demo_machine_fields scripted_vbm steady_other sys0_def)

section \<open>The state field\<close>

lemma info_line_State:
  "info_line env l m = Inr m' \<Longrightarrow>
   State m' = (case info_key_val env l of
                 None \<Rightarrow> State m
               | Some (key, val) \<Rightarrow> if key = ''VMState'' then val else State m)"
  by (auto simp: info_line_def split: option.splits sum.splits if_splits)

lemma VMState_values_Cons:
  "VMState_values env (l # ls) =
     (case info_key_val env l of
        None \<Rightarrow> VMState_values env ls
      | Some (key, val) \<Rightarrow>
          if key = ''VMState'' then val # VMState_values env ls else VMState_values env ls)"
  by (simp add: VMState_values_def List.map_filter_simps split: option.splits)

lemma info_loop_State:
  "info_loop env ls m = Inr m' \<Longrightarrow>
   State m' = (if VMState_values env ls = [] then State m else last (VMState_values env ls))"
proof (induction ls arbitrary: m)
  case Nil
  then show ?case by (simp add: VMState_values_def List.map_filter_simps)
next
  case (Cons l ls)
  from Cons.prems obtain m1 where
    l: "info_line env l m = Inr m1" and r: "info_loop env ls m1 = Inr m'"
    by (auto split: sum.splits)
  from Cons.IH [OF r] info_line_State [OF l] show ?case
    by (auto simp: VMState_values_Cons split: option.splits)
qed

lemma parse_info_State:
  "parse_info env out = Inr m \<Longrightarrow> scanLines out = (ls, serr) \<Longrightarrow>
   State m = last_VMState env ls"
  using info_loop_State [of env ls zero_Machine m]
  by (auto simp: parse_info_def last_VMState_def zero_Machine_def
      split: sum.splits option.splits)

lemma steady_GetMachine:
  "GetMachine (scripted (steady st)) i s
     = (parse_info (scripted (steady st)) (text_of_lines (demo_lines st)),
        \<lparr>world = Suc (world s),
         trace = trace s @ [Cmd [''showvminfo'', i, ''--machinereadable'']]\<rparr>)"
  by (rule scripted_GetMachine_ok [where errs = "[]"]) (simp add: steady_def)

lemma scanLines_demo_stuck:
  "scanLines (text_of_lines (demo_lines ''stuck'')) = (demo_lines ''stuck'', None)"
  by (subst scanLines_text_of_lines)
    (simp_all add: demo_lines_def MaxScanTokenSize_def dropCR_def)

lemma parse_info_demo_stuck:
  "parse_info (scripted f) (text_of_lines (demo_lines ''stuck'')) = Inr (demo_machine ''stuck'')"
proof -
  have "info_loop (scripted f) (demo_lines ''stuck'') zero_Machine = Inr (demo_machine ''stuck'')"
    by (simp add: scripted_fields line_eval demo_lines_def demo_machine_def)
  then show ?thesis
    by (simp add: parse_info_def scanLines_demo_stuck)
qed

text \<open>
  Claim C5, as stated, fails: on a host that reports \<^verbatim>\<open>VMState="stuck"\<close>, \<open>GetMachine\<close>
  returns a machine without error, and its state is the string stuck, which is none of
  the five named values.
\<close>

theorem GetMachine_unrecognized_state_counterexample:
  "fst (GetMachine (scripted (steady ''stuck'')) ''demo'' sys0) = Inr (demo_machine ''stuck'')
   \<and> State (demo_machine ''stuck'') = ''stuck''
   \<and> ''stuck'' \<notin> {Poweroff, Running, Paused, Saved, Aborted}"
  by (simp add: steady_GetMachine parse_info_demo_stuck demo_machine_fields
      Poweroff_def Running_def Paused_def Saved_def Aborted_def)

text \<open>
  Claim C5, amended. For every machine \<open>GetMachine\<close> produces, the state field is the
  value of the last \<^verbatim>\<open>VMState\<close> line of the scanned output, copied as it is, or the empty
  string when there is no such line; so it is one of the five named values exactly when
  that value is. A \<^verbatim>\<open>VMState\<close> line never makes the parser fail: whatever its value, the
  loop body stores it in the state field.
\<close>

theorem GetMachine_state_verbatim:
  "(\<forall>m s' out errs r w' ls serr.
       GetMachine env i s = (Inr m, s')
       \<and> exec env [''showvminfo'', i, ''--machinereadable''] (world s) = ((out, errs, r), w')
       \<and> scanLines out = (ls, serr)
     \<longrightarrow> State m = last_VMState env ls
         \<and> (State m \<in> {Poweroff, Running, Paused, Saved, Aborted}
              \<longleftrightarrow> last_VMState env ls \<in> {Poweroff, Running, Paused, Saved, Aborted}))
   \<and> (\<forall>l val m. info_key_val env l = Some (''VMState'', val)
         \<longrightarrow> info_line env l m = Inr (m\<lparr>State := val\<rparr>))"
proof -
  have a: "\<forall>m s' out errs r w' ls serr.
       GetMachine env i s = (Inr m, s')
       \<and> exec env [''showvminfo'', i, ''--machinereadable''] (world s) = ((out, errs, r), w')
       \<and> scanLines out = (ls, serr)
     \<longrightarrow> State m = last_VMState env ls
         \<and> (State m \<in> {Poweroff, Running, Paused, Saved, Aborted}
              \<longleftrightarrow> last_VMState env ls \<in> {Poweroff, Running, Paused, Saved, Aborted})"
  proof (intro allI impI, elim conjE)
    fix m s' out errs r w' ls serr
    assume g: "GetMachine env i s = (Inr m, s')"
      and e: "exec env [''showvminfo'', i, ''--machinereadable''] (world s)
          = ((out, errs, r), w')"
      and sc: "scanLines out = (ls, serr)"
    from g e have "parse_info env out = Inr m"
      by (auto simp: GetMachine_def vbmOutErr_def split: option.splits if_splits)
    from parse_info_State [OF this sc]
    show "State m = last_VMState env ls
         \<and> (State m \<in> {Poweroff, Running, Paused, Saved, Aborted}
              \<longleftrightarrow> last_VMState env ls \<in> {Poweroff, Running, Paused, Saved, Aborted})"
      by simp
  qed
  have b: "\<forall>l val m. info_key_val env l = Some (''VMState'', val)
         \<longrightarrow> info_line env l m = Inr (m\<lparr>State := val\<rparr>)"
    by (simp add: info_line_def)
  from a b show ?thesis by (intro conjI)
qed

theorem GetMachine_state_verbatim_witness:
  "fst (GetMachine (scripted (steady ''stuck'')) ''demo'' sys0) = Inr (demo_machine ''stuck'')
   \<and> last_VMState (scripted (steady ''stuck'')) (demo_lines ''stuck'') = ''stuck''
   \<and> info_line (scripted (steady ''stuck'')) ''VMState=\"stuck\"'' zero_Machine
       = Inr (zero_Machine\<lparr>State := ''stuck''\<rparr>)"
proof -
  let ?env = "scripted (steady ''stuck'')"
  let ?s' = "\<lparr>world = Suc 0,
      trace = [Cmd [''showvminfo'', ''demo'', ''--machinereadable'']]\<rparr> :: nat sys"
  have g: "GetMachine ?env ''demo'' sys0 = (Inr (demo_machine ''stuck''), ?s')"
    by (simp add: steady_GetMachine parse_info_demo_stuck sys0_def)
  have e: "exec ?env [''showvminfo'', ''demo'', ''--machinereadable''] (world sys0)
      = ((text_of_lines (demo_lines ''stuck''), [], None), Suc 0)"
    by (simp add: scripted_fields steady_def sys0_def)
  have kv: "info_key_val ?env ''VMState=\"stuck\"'' = Some (''VMState'', ''stuck'')"
    by (simp add: scripted_fields line_eval)
  note th = GetMachine_state_verbatim [of ?env "''demo''" sys0]
  from th g e scanLines_demo_stuck
  have "State (demo_machine ''stuck'') = last_VMState ?env (demo_lines ''stuck'')"
    by blast
  then have l: "last_VMState ?env (demo_lines ''stuck'') = ''stuck''"
    by (simp add: demo_machine_fields)
  from th kv have "info_line ?env ''VMState=\"stuck\"'' zero_Machine
       = Inr (zero_Machine\<lparr>State := ''stuck''\<rparr>)"
    by blast
  with g l show ?thesis by (simp add: demo_machine_fields)
qed

section \<open>Parsing the machine-readable block\<close>

lemma info_line_unrecognized: "\<not> recognized env l \<Longrightarrow> info_line env l m = Inr m"
proof (cases "info_key_val env l")
  case None
  then show ?thesis by (simp add: info_line_def)
next
  case (Some kv)
  assume "\<not> recognized env l"
  with Some have "fst kv \<notin> set recognized_keys"
    by (simp add: recognized_def split: prod.splits)
  then have "fst kv \<noteq> ''name''" "fst kv \<noteq> ''UUID''" "fst kv \<noteq> ''VMState''"
    "fst kv \<noteq> ''memory''" "fst kv \<noteq> ''cpus''" "fst kv \<noteq> ''vram''"
    "fst kv \<noteq> ''CfgFile''" "fst kv \<noteq> ''description''"
    unfolding recognized_keys_def by (simp_all del: One_nat_def)
  with Some show ?thesis
    by (cases kv) (simp add: info_line_def)
qed

lemma info_loop_filter:
  "info_loop env ls m = info_loop env (filter (recognized env) ls) m"
proof (induction ls arbitrary: m)
  case Nil
  show ?case by simp
next
  case (Cons l ls)
  show ?case
  proof (cases "recognized env l")
    case True
    with Cons.IH show ?thesis by (cases "info_line env l m") simp_all
  next
    case False
    with Cons.IH [of m] show ?thesis by (simp add: info_line_unrecognized)
  qed
qed

text \<open>
  Claim C7. Let the pattern for info lines be the one modelled from the spec, let the
  query for a machine succeed, and let the lines the scanner delivers from its output be
  such that those with a recognized key are exactly \<^verbatim>\<open>name="demo"\<close>, \<^verbatim>\<open>UUID="1234-uuid"\<close>,
  \<^verbatim>\<open>VMState="running"\<close>, \<^verbatim>\<open>memory=512\<close>, \<^verbatim>\<open>cpus=2\<close>, \<^verbatim>\<open>vram=16\<close> and
  \<^verbatim>\<open>CfgFile="/vms/demo/demo.vbox"\<close>; lines with other keys and lines without a key may stand
  anywhere among them. Then \<open>GetMachine\<close> returns, without error, the machine with name
  demo, UUID 1234-uuid, state running, memory 512, 2 CPUs, video memory 16, that config
  file and the base folder \<^verbatim>\<open>/vms/demo\<close>, every other field at its zero value: the other
  lines are ignored.
\<close>

theorem GetMachine_demo_block:
  assumes "reVMInfoLine env = vmInfoLine"
    and "exec env [''showvminfo'', i, ''--machinereadable''] (world s) = ((out, errs, None), w')"
    and "scanLines out = (ls, None)"
    and "filter (recognized env) ls =
           [''name=\"demo\"'', ''UUID=\"1234-uuid\"'', ''VMState=\"running\"'', ''memory=512'',
            ''cpus=2'', ''vram=16'', ''CfgFile=\"/vms/demo/demo.vbox\"'']"
  shows "GetMachine env i s =
           (Inr \<lparr>Name = ''demo'', UUID = ''1234-uuid'', State = Running, CPUs = 2,
                 Memory = 512, VRAM = 16, CfgFile = ''/vms/demo/demo.vbox'',
                 BaseFolder = ''/vms/demo'', OSType = [], Flag = 0, BootOrder = [],
                 Description = []\<rparr>,
            \<lparr>world = w', trace = trace s @ [Cmd [''showvminfo'', i, ''--machinereadable'']]\<rparr>)"
proof -
  have "info_loop env ls zero_Machine = info_loop env (filter (recognized env) ls) zero_Machine"
    by (rule info_loop_filter)
  also have "\<dots> = Inr \<lparr>Name = ''demo'', UUID = ''1234-uuid'', State = Running, CPUs = 2,
                 Memory = 512, VRAM = 16, CfgFile = ''/vms/demo/demo.vbox'',
                 BaseFolder = ''/vms/demo'', OSType = [], Flag = 0, BootOrder = [],
                 Description = []\<rparr>"
    unfolding assms(4) by (simp add: assms(1) line_eval Running_def)
  finally show ?thesis
    using assms(3) by (simp add: GetMachine_exec_ok [OF assms(2)] parse_info_def)
qed

lemma scanLines_noisy: "scanLines (text_of_lines noisy_lines) = (noisy_lines, None)"
  by (subst scanLines_text_of_lines)
    (simp_all add: noisy_lines_def MaxScanTokenSize_def dropCR_def)

lemma recognized_noisy:
  "filter (recognized (scripted f)) noisy_lines =
     [''name=\"demo\"'', ''UUID=\"1234-uuid\"'', ''VMState=\"running\"'', ''memory=512'',
      ''cpus=2'', ''vram=16'', ''CfgFile=\"/vms/demo/demo.vbox\"'']"
  by (simp add: noisy_lines_def recognized_def recognized_keys_def info_key_val_def
      scripted_fields vmInfoLine_def quoted_key_def bare_key_def info_value_def)

theorem GetMachine_demo_block_witness:
  "GetMachine (scripted noisy) ''demo'' sys0 =
     (Inr \<lparr>Name = ''demo'', UUID = ''1234-uuid'', State = Running, CPUs = 2,
           Memory = 512, VRAM = 16, CfgFile = ''/vms/demo/demo.vbox'',
           BaseFolder = ''/vms/demo'', OSType = [], Flag = 0, BootOrder = [],
           Description = []\<rparr>,
      \<lparr>world = 1, trace = [Cmd [''showvminfo'', ''demo'', ''--machinereadable'']]\<rparr>)"
proof -
  have e: "exec (scripted noisy) [''showvminfo'', ''demo'', ''--machinereadable''] (world sys0)
      = ((text_of_lines noisy_lines, [], None), 1)"
    by (simp add: scripted_fields noisy_def sys0_def)
  from GetMachine_demo_block [OF _ e scanLines_noisy recognized_noisy]
  show ?thesis by (simp add: scripted_fields sys0_def)
qed

section \<open>Listing machines\<close>

lemma list_loop_filter:
  "list_loop env ls ms s = list_loop env (filter (\<lambda>l. reVMNameUUID env l \<noteq> None) ls) ms s"
proof (induction ls arbitrary: ms s)
  case Nil
  show ?case by simp
next
  case (Cons l ls)
  show ?case
  proof (cases "reVMNameUUID env l")
    case None
    with Cons.IH [of ms s] show ?thesis by simp
  next
    case (Some nu)
    with Cons.IH show ?thesis
      by (cases nu) (simp split: prod.splits sum.splits)
  qed
qed

lemma list_loop_resolved:
  "list_loop env ls ms0 s0 = (Inr ms, s') \<Longrightarrow>
   \<exists>new. ms = ms0 @ new \<and>
     list_all2 (\<lambda>l m. \<exists>name uuid sk sk'. reVMNameUUID env l = Some (name, uuid)
                    \<and> GetMachine env name sk = (Inr m, sk'))
       (filter (\<lambda>l. reVMNameUUID env l \<noteq> None) ls) new"
proof (induction ls arbitrary: ms0 s0)
  case Nil
  then show ?case by simp
next
  case (Cons l ls)
  show ?case
  proof (cases "reVMNameUUID env l")
    case None
    with Cons show ?thesis by simp
  next
    case (Some nu)
    obtain name uuid where nu: "nu = (name, uuid)" by (cases nu)
    obtain r s1 where g: "GetMachine env name s0 = (r, s1)" by (cases "GetMachine env name s0")
    from Cons.prems Some nu g obtain m where
      r: "r = Inr m" and rest: "list_loop env ls (ms0 @ [m]) s1 = (Inr ms, s')"
      by (cases r) auto
    from Cons.IH [OF rest] obtain new where
      new: "ms = (ms0 @ [m]) @ new"
        "list_all2 (\<lambda>l m. \<exists>name uuid sk sk'. reVMNameUUID env l = Some (name, uuid)
                    \<and> GetMachine env name sk = (Inr m, sk'))
           (filter (\<lambda>l. reVMNameUUID env l \<noteq> None) ls) new"
      by blast
    from g r Some nu have "\<exists>name uuid sk sk'. reVMNameUUID env l = Some (name, uuid)
                    \<and> GetMachine env name sk = (Inr m, sk')"
      by blast
    with new Some have "ms = ms0 @ (m # new) \<and>
        list_all2 (\<lambda>l m. \<exists>name uuid sk sk'. reVMNameUUID env l = Some (name, uuid)
                    \<and> GetMachine env name sk = (Inr m, sk'))
           (filter (\<lambda>l. reVMNameUUID env l \<noteq> None) (l # ls)) (m # new)"
      by simp
    then show ?thesis by blast
  qed
qed

lemma list_loop_aborted:
  "list_loop env ls ms0 s0 = (Inl e, s') \<Longrightarrow>
   \<exists>l \<in> set ls. \<exists>name uuid sk. reVMNameUUID env l = Some (name, uuid)
       \<and> GetMachine env name sk = (Inl e, s')"
proof (induction ls arbitrary: ms0 s0)
  case Nil
  then show ?case by simp
next
  case (Cons l ls)
  show ?case
  proof (cases "reVMNameUUID env l")
    case None
    with Cons show ?thesis by simp
  next
    case (Some nu)
    obtain name uuid where nu: "nu = (name, uuid)" by (cases nu)
    obtain r s1 where g: "GetMachine env name s0 = (r, s1)" by (cases "GetMachine env name s0")
    show ?thesis
    proof (cases r)
      case (Inl e')
      with Cons.prems Some nu g have "e' = e" "s1 = s'" by simp_all
      with g Inl Some nu show ?thesis by auto
    next
      case (Inr m)
      with Cons.prems Some nu g have "list_loop env ls (ms0 @ [m]) s1 = (Inl e, s')" by simp
      from Cons.IH [OF this] show ?thesis by auto
    qed
  qed
qed

lemma ListMachines_scanned:
  assumes "exec env [''list'', ''vms''] (world s) = ((out, errs, None), w1)"
    and "scanLines out = (ls, None)"
  shows "ListMachines env s
     = list_loop env ls [] \<lparr>world = w1, trace = trace s @ [Cmd [''list'', ''vms'']]\<rparr>"
  using assms
  by (simp add: ListMachines_def vbmOut_def vbmOutErr_def split: prod.splits sum.splits)

lemma ListMachines_scan_error:
  assumes "exec env [''list'', ''vms''] (world s) = ((out, errs, None), w1)"
    and "scanLines out = (ls, Some e)"
    and "list_loop env ls [] \<lparr>world = w1, trace = trace s @ [Cmd [''list'', ''vms'']]\<rparr>
           = (Inr ms, s2)"
  shows "ListMachines env s = (Inl e, s2)"
  using assms by (simp add: ListMachines_def vbmOut_def vbmOutErr_def)

lemma scan_from_long_last:
  assumes "MaxScanTokenSize \<le> n" and "c \<noteq> CHR 0x0A"
  shows "scan_from [] (replicate n c) = ([], Some ErrTooLong)"
proof -
  from assms(1) have "0 < n" by (simp add: MaxScanTokenSize_def)
  with assms show ?thesis
    by (subst scan_from_last) auto
qed

lemma scanLines_long_listing:
  "scanLines (''\"demo\" {1234-uuid}'' @ CHR 0x0A # replicate MaxScanTokenSize (CHR ''x''))
     = ([''\"demo\" {1234-uuid}''], Some ErrTooLong)"
proof -
  have last: "scan_from [] (replicate MaxScanTokenSize (CHR ''x'')) = ([], Some ErrTooLong)"
    by (rule scan_from_long_last) simp_all
  have short: "\<not> MaxScanTokenSize \<le> length ''\"demo\" {1234-uuid}''"
    by (simp add: MaxScanTokenSize_def)
  have "scan_from [] (''\"demo\" {1234-uuid}'' @ CHR 0x0A # replicate MaxScanTokenSize (CHR ''x''))
      = ([dropCR ''\"demo\" {1234-uuid}''], Some ErrTooLong)"
    by (subst scan_from_line) (use last short in simp_all)
  then show ?thesis by (simp add: scanLines_def dropCR_def)
qed

lemma vmNameUUID_replicate: "c \<noteq> CHR 0x22 \<Longrightarrow> vmNameUUID (replicate n c) = None"
  by (cases n) (simp_all add: vmNameUUID_def)

lemma long_listing_GetMachine:
  "GetMachine (scripted long_listing) i s
     = (Inr (demo_machine Running),
        \<lparr>world = Suc (world s),
         trace = trace s @ [Cmd [''showvminfo'', i, ''--machinereadable'']]\<rparr>)"
  by (subst scripted_GetMachine_ok [where out = "text_of_lines (demo_lines Running)"
        and errs = "[]"])
    (simp_all add: long_listing_def steady_def parse_info_demo)

text \<open>
  Claim C8, as stated, fails. On a host whose listing is the well-formed line
  \<^verbatim>\<open>"demo" {1234-uuid}\<close> followed by a line of 65536 times the letter x, the first line
  matches the pattern and the second does not; \<open>ListMachines\<close> resolves the first line and
  then returns the scanner's error for the second, with no machine: a line that does not
  match has made the listing fail.
\<close>

theorem ListMachines_long_line_counterexample:
  "reVMNameUUID (scripted long_listing) ''\"demo\" {1234-uuid}'' = Some (''demo'', ''1234-uuid'')
   \<and> reVMNameUUID (scripted long_listing) (replicate MaxScanTokenSize (CHR ''x'')) = None
   \<and> MaxScanTokenSize = 65536
   \<and> fst (long_listing 0 [''list'', ''vms''])
       = ''\"demo\" {1234-uuid}'' @ CHR 0x0A # replicate MaxScanTokenSize (CHR ''x'')
   \<and> ListMachines (scripted long_listing) sys0
       = (Inl ErrTooLong,
          \<lparr>world = 2,
           trace = [Cmd [''list'', ''vms''],
                    Cmd [''showvminfo'', ''demo'', ''--machinereadable'']]\<rparr>)"
proof -
  have good: "reVMNameUUID (scripted long_listing) ''\"demo\" {1234-uuid}''
      = Some (''demo'', ''1234-uuid'')"
    by (simp add: scripted_fields vmNameUUID_def)
  have bad: "reVMNameUUID (scripted long_listing) (replicate MaxScanTokenSize (CHR ''x'')) = None"
    by (simp add: scripted_fields vmNameUUID_replicate)
  have size: "MaxScanTokenSize = 65536"
    by (simp add: MaxScanTokenSize_def)
  have out: "fst (long_listing 0 [''list'', ''vms''])
       = ''\"demo\" {1234-uuid}'' @ CHR 0x0A # replicate MaxScanTokenSize (CHR ''x'')"
    by (simp add: long_listing_def)
  have e: "exec (scripted long_listing) [''list'', ''vms''] (world sys0)
      = ((''\"demo\" {1234-uuid}'' @ CHR 0x0A # replicate MaxScanTokenSize (CHR ''x''), [], None),
         1)"
    by (simp add: scripted_fields long_listing_def sys0_def)
  have loop: "list_loop (scripted long_listing) [''\"demo\" {1234-uuid}''] []
        \<lparr>world = 1, trace = trace sys0 @ [Cmd [''list'', ''vms'']]\<rparr>
      = (Inr [demo_machine Running],
         \<lparr>world = 2,
          trace = [Cmd [''list'', ''vms''],
                   Cmd [''showvminfo'', ''demo'', ''--machinereadable'']]\<rparr>)"
    by (simp add: good long_listing_GetMachine sys0_def)
  have run: "ListMachines (scripted long_listing) sys0
       = (Inl ErrTooLong,
          \<lparr>world = 2,
           trace = [Cmd [''list'', ''vms''],
                    Cmd [''showvminfo'', ''demo'', ''--machinereadable'']]\<rparr>)"
    by (rule ListMachines_scan_error [OF e scanLines_long_listing loop])
  from good bad size out run show ?thesis by (intro conjI)
qed

text \<open>
  Claim C8, amended. Let the listing command succeed and let the scanner deliver all the
  lines \<open>ls\<close> of its output without error, which it does when no line is 64 KiB or longer
  (\<open>scanLines_text_of_lines\<close>). Then \<open>ListMachines\<close> is its loop over the matching lines
  alone: a line the pattern does not match is skipped and never makes the listing fail.
  Each matching line is resolved by \<open>GetMachine\<close> on its name; a resolution that fails ends
  the whole listing with that error, the remaining lines untouched. A listing that
  succeeds has one machine for each matching line, in order, each the result of
  \<open>GetMachine\<close> on that line's name; a listing that fails returns the error of the failed
  resolution of one of its matching lines. In particular two lines, one matching and one
  not, in either order, give exactly the one machine \<open>GetMachine\<close> returns for the
  matching line, and no error.
\<close>

theorem ListMachines_skips_and_aborts:
  assumes "exec env [''list'', ''vms''] (world s) = ((out, errs, None), w1)"
    and "scanLines out = (ls, None)"
    and "s1 = \<lparr>world = w1, trace = trace s @ [Cmd [''list'', ''vms'']]\<rparr>"
  shows
    "ListMachines env s = list_loop env (filter (\<lambda>l. reVMNameUUID env l \<noteq> None) ls) [] s1
     \<and> (\<forall>l rest ms s0. reVMNameUUID env l = None \<longrightarrow>
           list_loop env (l # rest) ms s0 = list_loop env rest ms s0)
     \<and> (\<forall>l rest ms s0 name uuid e s'.
           reVMNameUUID env l = Some (name, uuid) \<and> GetMachine env name s0 = (Inl e, s') \<longrightarrow>
           list_loop env (l # rest) ms s0 = (Inl e, s'))
     \<and> (\<forall>l rest ms s0 name uuid m s'.
           reVMNameUUID env l = Some (name, uuid) \<and> GetMachine env name s0 = (Inr m, s') \<longrightarrow>
           list_loop env (l # rest) ms s0 = list_loop env rest (ms @ [m]) s')
     \<and> (\<forall>ms s'. ListMachines env s = (Inr ms, s') \<longrightarrow>
           list_all2 (\<lambda>l m. \<exists>name uuid sk sk'. reVMNameUUID env l = Some (name, uuid)
                          \<and> GetMachine env name sk = (Inr m, sk'))
             (filter (\<lambda>l. reVMNameUUID env l \<noteq> None) ls) ms)
     \<and> (\<forall>e s'. ListMachines env s = (Inl e, s') \<longrightarrow>
           (\<exists>l \<in> set ls. \<exists>name uuid sk. reVMNameUUID env l = Some (name, uuid)
               \<and> GetMachine env name sk = (Inl e, s')))
     \<and> (\<forall>good bad name uuid m s'.
           (ls = [good, bad] \<or> ls = [bad, good])
           \<and> reVMNameUUID env good = Some (name, uuid) \<and> reVMNameUUID env bad = None
           \<and> GetMachine env name s1 = (Inr m, s') \<longrightarrow>
           ListMachines env s = (Inr [m], s'))"
proof -
  have run: "ListMachines env s = list_loop env ls [] s1"
    using ListMachines_scanned [OF assms(1,2)] assms(3) by simp
  have skip: "ListMachines env s
      = list_loop env (filter (\<lambda>l. reVMNameUUID env l \<noteq> None) ls) [] s1"
    using run list_loop_filter [of env ls "[]" s1] by simp
  have step_skip: "\<forall>l rest ms s0. reVMNameUUID env l = None \<longrightarrow>
           list_loop env (l # rest) ms s0 = list_loop env rest ms s0"
    by simp
  have step_abort: "\<forall>l rest ms s0 name uuid e s'.
           reVMNameUUID env l = Some (name, uuid) \<and> GetMachine env name s0 = (Inl e, s') \<longrightarrow>
           list_loop env (l # rest) ms s0 = (Inl e, s')"
    by simp
  have step_next: "\<forall>l rest ms s0 name uuid m s'.
           reVMNameUUID env l = Some (name, uuid) \<and> GetMachine env name s0 = (Inr m, s') \<longrightarrow>
           list_loop env (l # rest) ms s0 = list_loop env rest (ms @ [m]) s'"
    by simp
  have ok: "\<forall>ms s'. ListMachines env s = (Inr ms, s') \<longrightarrow>
           list_all2 (\<lambda>l m. \<exists>name uuid sk sk'. reVMNameUUID env l = Some (name, uuid)
                          \<and> GetMachine env name sk = (Inr m, sk'))
             (filter (\<lambda>l. reVMNameUUID env l \<noteq> None) ls) ms"
  proof (intro allI impI)
    fix ms s'
    assume "ListMachines env s = (Inr ms, s')"
    with run have "list_loop env ls [] s1 = (Inr ms, s')" by simp
    from list_loop_resolved [OF this]
    show "list_all2 (\<lambda>l m. \<exists>name uuid sk sk'. reVMNameUUID env l = Some (name, uuid)
                          \<and> GetMachine env name sk = (Inr m, sk'))
             (filter (\<lambda>l. reVMNameUUID env l \<noteq> None) ls) ms"
      by simp
  qed
  have failed: "\<forall>e s'. ListMachines env s = (Inl e, s') \<longrightarrow>
           (\<exists>l \<in> set ls. \<exists>name uuid sk. reVMNameUUID env l = Some (name, uuid)
               \<and> GetMachine env name sk = (Inl e, s'))"
  proof (intro allI impI)
    fix e s'
    assume "ListMachines env s = (Inl e, s')"
    with run have "list_loop env ls [] s1 = (Inl e, s')" by simp
    from list_loop_aborted [OF this]
    show "\<exists>l \<in> set ls. \<exists>name uuid sk. reVMNameUUID env l = Some (name, uuid)
               \<and> GetMachine env name sk = (Inl e, s')" .
  qed
  have two: "\<forall>good bad name uuid m s'.
           (ls = [good, bad] \<or> ls = [bad, good])
           \<and> reVMNameUUID env good = Some (name, uuid) \<and> reVMNameUUID env bad = None
           \<and> GetMachine env name s1 = (Inr m, s') \<longrightarrow>
           ListMachines env s = (Inr [m], s')"
    using run by auto
  from skip step_skip step_abort step_next ok failed two show ?thesis
    by (intro conjI)
qed

lemma scanLines_listing:
  "scanLines (text_of_lines [''\"demo\" {1234-uuid}'', ''Oracle VM VirtualBox''])
     = ([''\"demo\" {1234-uuid}'', ''Oracle VM VirtualBox''], None)"
  by (subst scanLines_text_of_lines) (simp_all add: MaxScanTokenSize_def dropCR_def)

theorem ListMachines_skips_and_aborts_witness:
  "ListMachines (scripted listing) sys0
     = (Inr [demo_machine Running],
        \<lparr>world = 2,
         trace = [Cmd [''list'', ''vms''], Cmd [''showvminfo'', ''demo'', ''--machinereadable'']]\<rparr>)"
proof -
  let ?env = "scripted listing"
  let ?s1 = "\<lparr>world = 1, trace = trace sys0 @ [Cmd [''list'', ''vms'']]\<rparr> :: nat sys"
  let ?s2 = "\<lparr>world = 2,
      trace = [Cmd [''list'', ''vms''], Cmd [''showvminfo'', ''demo'', ''--machinereadable'']]\<rparr>
      :: nat sys"
  have e: "exec ?env [''list'', ''vms''] (world sys0)
      = ((text_of_lines [''\"demo\" {1234-uuid}'', ''Oracle VM VirtualBox''], [], None), 1)"
    by (simp add: scripted_fields listing_def sys0_def)
  have good: "reVMNameUUID ?env ''\"demo\" {1234-uuid}'' = Some (''demo'', ''1234-uuid'')"
    by (simp add: scripted_fields vmNameUUID_def)
  have bad: "reVMNameUUID ?env ''Oracle VM VirtualBox'' = None"
    by (simp add: scripted_fields vmNameUUID_def)
  have g: "GetMachine ?env ''demo'' ?s1 = (Inr (demo_machine Running), ?s2)"
    by (subst scripted_GetMachine_ok [where out = "text_of_lines (demo_lines Running)"
          and errs = "[]"])
      (simp_all add: listing_def steady_def parse_info_demo sys0_def)
  from ListMachines_skips_and_aborts [OF e scanLines_listing refl] good bad g
  show ?thesis by blast
qed

section \<open>Creating a machine\<close>

lemma issued_append: "trace s' = trace s @ evs \<Longrightarrow> issued s s' = evs"
  by (simp add: issued_def)

lemma GetMachine_adds:
  "GetMachine env i s = (r, s') \<Longrightarrow>
   trace s' = trace s @ [Cmd [''showvminfo'', i, ''--machinereadable'']]"
  using GetMachine_trace [of env i s] by simp

lemma list_loop_adds:
  "list_loop env ls ms s = (r, s') \<Longrightarrow>
   \<exists>evs. trace s' = trace s @ evs \<and> list_all (\<lambda>ev. \<not> is_create ev) evs"
proof (induction ls arbitrary: ms s)
  case Nil
  then show ?case by simp
next
  case (Cons l ls)
  show ?case
  proof (cases "reVMNameUUID env l")
    case None
    with Cons show ?thesis by simp
  next
    case (Some nu)
    obtain name uuid where nu: "nu = (name, uuid)" by (cases nu)
    obtain r1 s1 where g: "GetMachine env name s = (r1, s1)" by (cases "GetMachine env name s")
    note t = GetMachine_adds [OF g]
    show ?thesis
    proof (cases r1)
      case (Inl e)
      with Cons.prems Some nu g have "s' = s1" by simp
      with t show ?thesis by simp
    next
      case (Inr m)
      with Cons.prems Some nu g have "list_loop env ls (ms @ [m]) s1 = (r, s')" by simp
      from Cons.IH [OF this] t show ?thesis by auto
    qed
  qed
qed

lemma ListMachines_adds:
  assumes "ListMachines env s = (r, s')"
  shows "\<exists>evs. trace s' = trace s @ evs \<and> list_all (\<lambda>ev. \<not> is_create ev) evs"
proof -
  obtain out errs e w1 where x: "exec env [''list'', ''vms''] (world s) = ((out, errs, e), w1)"
    by (cases "exec env [''list'', ''vms''] (world s)") auto
  let ?s1 = "\<lparr>world = w1, trace = trace s @ [Cmd [''list'', ''vms'']]\<rparr>"
  show ?thesis
  proof (cases e)
    case (Some err)
    with assms x have "s' = ?s1"
      by (simp add: ListMachines_def vbmOut_def vbmOutErr_def)
    then show ?thesis by simp
  next
    case None
    obtain ls serr where sc: "scanLines out = (ls, serr)" by (cases "scanLines out")
    obtain r2 s2 where l: "list_loop env ls [] ?s1 = (r2, s2)"
      by (cases "list_loop env ls [] ?s1")
    with assms x None sc have "s' = s2"
      by (auto simp: ListMachines_def vbmOut_def vbmOutErr_def split: sum.splits option.splits)
    with list_loop_adds [OF l] show ?thesis by auto
  qed
qed

text \<open>
  Claim C6. \<open>CreateMachine\<close> with the empty name returns its malformed-input error and
  leaves the outside untouched, whatever the base folder. With a name that is not empty it
  lists the machines first: a failed listing is returned as it is; a listing that holds a
  machine of exactly that name gives the already-exists error in the state the listing
  left; otherwise the creation command is issued in that state, with the base folder flag
  exactly when the base folder is not empty, its error is returned if it fails, and the
  result is otherwise that of \<open>GetMachine\<close> on the name. The listing itself never issues a
  creation command, and whenever \<open>CreateMachine\<close> issues one, the name is not empty, the
  listing succeeded without a machine of that name, and the command is the one described.
\<close>

theorem CreateMachine_guards:
  "CreateMachine env [] basefolder s = (Inl (Errorf ''machine name is empty''), s)
   \<and> (\<forall>e s1. name \<noteq> [] \<and> ListMachines env s = (Inl e, s1) \<longrightarrow>
         CreateMachine env name basefolder s = (Inl e, s1))
   \<and> (\<forall>ms s1. name \<noteq> [] \<and> ListMachines env s = (Inr ms, s1)
           \<and> (\<exists>m \<in> set ms. Name m = name) \<longrightarrow>
         CreateMachine env name basefolder s = (Inl ErrMachineExist, s1)
         \<and> list_all (\<lambda>ev. \<not> is_create ev) (issued s s1))
   \<and> (\<forall>ms s1. name \<noteq> [] \<and> ListMachines env s = (Inr ms, s1)
           \<and> (\<forall>m \<in> set ms. Name m \<noteq> name) \<longrightarrow>
         CreateMachine env name basefolder s =
           (case vbm env ([''createvm'', ''--name'', name, ''--register'']
                          @ (if basefolder = [] then [] else [''--basefolder'', basefolder])) s1 of
              (Some e, s2) \<Rightarrow> (Inl e, s2)
            | (None, s2) \<Rightarrow> GetMachine env name s2))
   \<and> (\<forall>ev \<in> set (issued s (snd (CreateMachine env name basefolder s))).
         is_create ev \<longrightarrow>
           name \<noteq> []
           \<and> (\<exists>ms s1. ListMachines env s = (Inr ms, s1) \<and> (\<forall>m \<in> set ms. Name m \<noteq> name))
           \<and> ev = Cmd ([''createvm'', ''--name'', name, ''--register'']
                        @ (if basefolder = [] then [] else [''--basefolder'', basefolder])))"
proof -
  let ?args = "[''createvm'', ''--name'', name, ''--register'']
                 @ (if basefolder = [] then [] else [''--basefolder'', basefolder])"
  have empty: "CreateMachine env [] basefolder s = (Inl (Errorf ''machine name is empty''), s)"
    by (simp add: CreateMachine_def)
  have listing_fails: "\<forall>e s1. name \<noteq> [] \<and> ListMachines env s = (Inl e, s1) \<longrightarrow>
         CreateMachine env name basefolder s = (Inl e, s1)"
    by (simp add: CreateMachine_def)
  have exists: "\<forall>ms s1. name \<noteq> [] \<and> ListMachines env s = (Inr ms, s1)
           \<and> (\<exists>m \<in> set ms. Name m = name) \<longrightarrow>
         CreateMachine env name basefolder s = (Inl ErrMachineExist, s1)
         \<and> list_all (\<lambda>ev. \<not> is_create ev) (issued s s1)"
  proof (intro allI impI, elim conjE)
    fix ms s1
    assume a: "name \<noteq> []" "ListMachines env s = (Inr ms, s1)" "\<exists>m \<in> set ms. Name m = name"
    from ListMachines_adds [OF a(2)] have "list_all (\<lambda>ev. \<not> is_create ev) (issued s s1)"
      by (auto simp: issued_append)
    moreover from a have "CreateMachine env name basefolder s = (Inl ErrMachineExist, s1)"
      by (simp add: CreateMachine_def list_ex_iff)
    ultimately show "CreateMachine env name basefolder s = (Inl ErrMachineExist, s1)
         \<and> list_all (\<lambda>ev. \<not> is_create ev) (issued s s1)"
      by simp
  qed
  have creates: "\<forall>ms s1. name \<noteq> [] \<and> ListMachines env s = (Inr ms, s1)
           \<and> (\<forall>m \<in> set ms. Name m \<noteq> name) \<longrightarrow>
         CreateMachine env name basefolder s =
           (case vbm env ?args s1 of
              (Some e, s2) \<Rightarrow> (Inl e, s2)
            | (None, s2) \<Rightarrow> GetMachine env name s2)"
    by (auto simp: CreateMachine_def list_ex_iff)
  have only: "\<forall>ev \<in> set (issued s (snd (CreateMachine env name basefolder s))).
         is_create ev \<longrightarrow>
           name \<noteq> []
           \<and> (\<exists>ms s1. ListMachines env s = (Inr ms, s1) \<and> (\<forall>m \<in> set ms. Name m \<noteq> name))
           \<and> ev = Cmd ?args"
  proof (intro ballI impI)
    fix ev
    assume ev: "ev \<in> set (issued s (snd (CreateMachine env name basefolder s)))"
      and c: "is_create ev"
    obtain r s1 where l: "ListMachines env s = (r, s1)" by (cases "ListMachines env s")
    from ListMachines_adds [OF l] obtain evs where
      evs: "trace s1 = trace s @ evs" "list_all (\<lambda>ev. \<not> is_create ev) evs"
      by blast
    have ne: "name \<noteq> []"
    proof
      assume "name = []"
      with ev show False by (simp add: CreateMachine_def issued_def)
    qed
    have free: "\<exists>ms. r = Inr ms \<and> (\<forall>m \<in> set ms. Name m \<noteq> name)"
    proof (rule ccontr)
      assume "\<not> (\<exists>ms. r = Inr ms \<and> (\<forall>m \<in> set ms. Name m \<noteq> name))"
      with l ne have "snd (CreateMachine env name basefolder s) = s1"
        by (cases r) (auto simp: CreateMachine_def list_ex_iff)
      with ev evs c show False
        by (auto simp: issued_append list_all_iff)
    qed
    then obtain ms where ms: "r = Inr ms" "\<forall>m \<in> set ms. Name m \<noteq> name" by blast
    obtain e2 s2 where v: "vbm env ?args s1 = (e2, s2)" by (cases "vbm env ?args s1")
    from vbm_trace [of env ?args s1] v evs
    have t2: "trace s2 = trace s @ evs @ [Cmd ?args]" by simp
    have "set (issued s (snd (CreateMachine env name basefolder s)))
        \<subseteq> set evs \<union> {Cmd ?args, Cmd [''showvminfo'', name, ''--machinereadable'']}"
    proof (cases e2)
      case (Some e)
      with creates l ms ne v have "snd (CreateMachine env name basefolder s) = s2" by simp
      with t2 show ?thesis by (auto simp: issued_append)
    next
      case None
      obtain r3 s3 where g: "GetMachine env name s2 = (r3, s3)"
        by (cases "GetMachine env name s2")
      with creates l ms ne v None have "snd (CreateMachine env name basefolder s) = s3" by simp
      with GetMachine_adds [OF g] t2 show ?thesis by (auto simp: issued_append)
    qed
    with ev evs(2) c have "ev = Cmd ?args"
      by (auto simp: list_all_iff)
    with ne l ms show "name \<noteq> []
           \<and> (\<exists>ms s1. ListMachines env s = (Inr ms, s1) \<and> (\<forall>m \<in> set ms. Name m \<noteq> name))
           \<and> ev = Cmd ?args"
      by blast
  qed
  from empty listing_fails exists creates only show ?thesis by (intro conjI)
qed

lemma listing_GetMachine:
  "GetMachine (scripted listing) i s
     = (Inr (demo_machine Running),
        \<lparr>world = Suc (world s),
         trace = trace s @ [Cmd [''showvminfo'', i, ''--machinereadable'']]\<rparr>)"
  by (subst scripted_GetMachine_ok [where out = "text_of_lines (demo_lines Running)"
        and errs = "[]"])
    (simp_all add: listing_def steady_def parse_info_demo)

lemma listing_run:
  "ListMachines (scripted listing) sys0
     = (Inr [demo_machine Running],
        \<lparr>world = 2,
         trace = [Cmd [''list'', ''vms''], Cmd [''showvminfo'', ''demo'', ''--machinereadable'']]\<rparr>)"
proof -
  have e: "exec (scripted listing) [''list'', ''vms''] (world sys0)
      = ((text_of_lines [''\"demo\" {1234-uuid}'', ''Oracle VM VirtualBox''], [], None), 1)"
    by (simp add: scripted_fields listing_def sys0_def)
  have m: "reVMNameUUID (scripted listing) ''\"demo\" {1234-uuid}'' = Some (''demo'', ''1234-uuid'')"
    "reVMNameUUID (scripted listing) ''Oracle VM VirtualBox'' = None"
    by (simp_all add: scripted_fields vmNameUUID_def)
  have "ListMachines (scripted listing) sys0
      = list_loop (scripted listing) [''\"demo\" {1234-uuid}'', ''Oracle VM VirtualBox''] []
          \<lparr>world = 1, trace = trace sys0 @ [Cmd [''list'', ''vms'']]\<rparr>"
    by (rule ListMachines_scanned [OF e scanLines_listing])
  also have "\<dots> = (Inr [demo_machine Running],
        \<lparr>world = 2,
         trace = [Cmd [''list'', ''vms''], Cmd [''showvminfo'', ''demo'', ''--machinereadable'']]\<rparr>)"
    by (simp add: m listing_GetMachine sys0_def)
  finally show ?thesis .
qed

theorem CreateMachine_guards_witness:
  "CreateMachine (scripted listing) [] ''/vms'' sys0
     = (Inl (Errorf ''machine name is empty''), sys0)
   \<and> CreateMachine (scripted listing) ''demo'' [] sys0
     = (Inl ErrMachineExist,
        \<lparr>world = 2,
         trace = [Cmd [''list'', ''vms''], Cmd [''showvminfo'', ''demo'', ''--machinereadable'']]\<rparr>)
   \<and> CreateMachine (scripted listing) ''web'' ''/vms'' sys0
     = (Inr (demo_machine Running),
        \<lparr>world = 4,
         trace = [Cmd [''list'', ''vms''], Cmd [''showvminfo'', ''demo'', ''--machinereadable''],
                  Cmd [''createvm'', ''--name'', ''web'', ''--register'', ''--basefolder'', ''/vms''],
                  Cmd [''showvminfo'', ''web'', ''--machinereadable'']]\<rparr>)
   \<and> CreateMachine (scripted listing) ''web'' [] sys0
     = (Inr (demo_machine Running),
        \<lparr>world = 4,
         trace = [Cmd [''list'', ''vms''], Cmd [''showvminfo'', ''demo'', ''--machinereadable''],
                  Cmd [''createvm'', ''--name'', ''web'', ''--register''],
                  Cmd [''showvminfo'', ''web'', ''--machinereadable'']]\<rparr>)"
proof -
  let ?env = "scripted listing"
  have v: "vbm ?env (''createvm'' # args) s
      = (None, \<lparr>world = Suc (world s), trace = trace s @ [Cmd (''createvm'' # args)]\<rparr>)"
    for args s
    by (simp add: scripted_vbm listing_def steady_def)
  from CreateMachine_guards [of ?env "''/vms''" sys0 "''demo''"]
  have "CreateMachine ?env [] ''/vms'' sys0 = (Inl (Errorf ''machine name is empty''), sys0)"
    by blast
  moreover
  from CreateMachine_guards [of ?env "[]" sys0 "''demo''"] listing_run
  have "CreateMachine ?env ''demo'' [] sys0
     = (Inl ErrMachineExist,
        \<lparr>world = 2,
         trace = [Cmd [''list'', ''vms''], Cmd [''showvminfo'', ''demo'', ''--machinereadable'']]\<rparr>)"
    by (simp add: demo_machine_fields)
  moreover
  from CreateMachine_guards [of ?env "''/vms''" sys0 "''web''"] listing_run
  have "CreateMachine ?env ''web'' ''/vms'' sys0
     = (Inr (demo_machine Running),
        \<lparr>world = 4,
         trace = [Cmd [''list'', ''vms''], Cmd [''showvminfo'', ''demo'', ''--machinereadable''],
                  Cmd [''createvm'', ''--name'', ''web'', ''--register'', ''--basefolder'', ''/vms''],
                  Cmd [''showvminfo'', ''web'', ''--machinereadable'']]\<rparr>)"
    by (simp add: demo_machine_fields v listing_GetMachine)
  moreover
  from CreateMachine_guards [of ?env "[]" sys0 "''web''"] listing_run
  have "CreateMachine ?env ''web'' [] sys0
     = (Inr (demo_machine Running),
        \<lparr>world = 4,
         trace = [Cmd [''list'', ''vms''], Cmd [''showvminfo'', ''demo'', ''--machinereadable''],
                  Cmd [''createvm'', ''--name'', ''web'', ''--register''],
                  Cmd [''showvminfo'', ''web'', ''--machinereadable'']]\<rparr>)"
    by (simp add: demo_machine_fields v listing_GetMachine)
  ultimately show ?thesis by blast
qed

section \<open>The boot order\<close>

lemma fmt_d_small:
  "fmt_d (Suc 0) = ''1''" "fmt_d (Suc (Suc 0)) = ''2''"
  "fmt_d (Suc (Suc (Suc 0))) = ''3''" "fmt_d (Suc (Suc (Suc (Suc 0)))) = ''4''"
  by (subst fmt_d.simps, simp)+

lemma boot_args_full: "3 < i \<Longrightarrow> boot_args i devs = []"
  by (cases devs) simp_all

lemma boot_args_4:
  "boot_args 0 (a # b # c # d # rest) =
     [''--boot1'', a, ''--boot2'', b, ''--boot3'', c, ''--boot4'', d]"
  by (simp add: fmt_d_small boot_args_full)

lemma boot_args_slots:
  "boot_args 0 devs
     = concat (map (\<lambda>k. [boot_slots ! k, devs ! k]) [0..<min 4 (length devs)])"
proof -
  consider "devs = []" | a where "devs = [a]" | a b where "devs = [a, b]"
    | a b c where "devs = [a, b, c]" | a b c d rest where "devs = a # b # c # d # rest"
    by (metis list.exhaust)
  then show ?thesis
  proof cases
    case 5
    have "min 4 (length devs) = 4"
      using 5 by simp
    moreover have "[0..<4] = [0, 1, 2, 3]"
      by (simp add: upt_rec)
    ultimately have "[0..<min 4 (length devs)] = [0, 1, 2, 3]"
      by simp
    with 5 show ?thesis by (simp add: boot_args_4 boot_slots_def del: boot_args.simps)
  qed (simp_all add: fmt_d_small boot_slots_def upt_rec)
qed

lemma boot_args_take: "boot_args 0 devs = boot_args 0 (take 4 devs)"
proof -
  consider "devs = []" | a where "devs = [a]" | a b where "devs = [a, b]"
    | a b c where "devs = [a, b, c]" | a b c d rest where "devs = a # b # c # d # rest"
    by (metis list.exhaust)
  then show ?thesis
  proof cases
    case 5
    then show ?thesis by (simp add: boot_args_4 del: boot_args.simps)
  qed simp_all
qed

lemma five_entries:
  "5 \<le> length (xs :: 'a list) \<Longrightarrow> \<exists>a b c d rest. xs = a # b # c # d # rest"
  by (auto simp: numeral_eq_Suc Suc_le_length_iff)

lemma Modify_adds:
  "Machine_Modify env m s = (r, m', s') \<Longrightarrow>
   \<exists>evs. trace s' = trace s @ Cmd (Modify_args m) # evs"
proof -
  assume a: "Machine_Modify env m s = (r, m', s')"
  obtain e s1 where v: "vbm env (Modify_args m) s = (e, s1)"
    by (cases "vbm env (Modify_args m) s")
  with vbm_trace [of env "Modify_args m" s]
  have t: "trace s1 = trace s @ [Cmd (Modify_args m)]" by simp
  show ?thesis
  proof (cases e)
    case (Some err)
    with a v have "s' = s1" by (simp add: Machine_Modify_def)
    with t show ?thesis by simp
  next
    case None
    with a v have "Machine_Refresh env m s1 = (r, m', s')" by (simp add: Machine_Modify_def)
    from Refresh_trace [OF this] t show ?thesis by simp
  qed
qed

text \<open>
  Claim C9. The command \<open>Modify\<close> issues is the tool run on the settings followed by the
  boot arguments. For a boot order of five or more entries the boot arguments are exactly
  \<^verbatim>\<open>--boot1\<close> to \<^verbatim>\<open>--boot4\<close>, each followed by the entry at that position, in the
  order of the boot order: every entry after the fourth is dropped. For a boot order
  of four or fewer entries they are, for each entry in order, the flag of its slot
  (\<open>boot_slots\<close> lists the four flags) and the entry: the boot order is passed in full.
\<close>

theorem Modify_boot_order:
  "Modify_args m = Modify_settings m @ boot_args 0 (BootOrder m)
   \<and> (5 \<le> length (BootOrder m) \<longrightarrow>
        boot_args 0 (BootOrder m) =
          [''--boot1'', BootOrder m ! 0, ''--boot2'', BootOrder m ! 1,
           ''--boot3'', BootOrder m ! 2, ''--boot4'', BootOrder m ! 3])
   \<and> (length (BootOrder m) \<le> 4 \<longrightarrow>
        boot_args 0 (BootOrder m) =
          concat (map (\<lambda>k. [boot_slots ! k, BootOrder m ! k])
                   [0..<length (BootOrder m)]))
   \<and> boot_args 0 (BootOrder m) = boot_args 0 (take 4 (BootOrder m))
   \<and> (\<forall>r m' s'. Machine_Modify env m s = (r, m', s') \<longrightarrow>
         (\<exists>evs. trace s' = trace s @ Cmd (Modify_args m) # evs))"
proof -
  have args: "Modify_args m = Modify_settings m @ boot_args 0 (BootOrder m)"
    by (simp add: Modify_args_def)
  have many: "5 \<le> length (BootOrder m) \<longrightarrow>
        boot_args 0 (BootOrder m) =
          [''--boot1'', BootOrder m ! 0, ''--boot2'', BootOrder m ! 1,
           ''--boot3'', BootOrder m ! 2, ''--boot4'', BootOrder m ! 3]"
  proof
    assume "5 \<le> length (BootOrder m)"
    from five_entries [OF this] obtain a b c d rest where
      "BootOrder m = a # b # c # d # rest"
      by blast
    then show "boot_args 0 (BootOrder m) =
          [''--boot1'', BootOrder m ! 0, ''--boot2'', BootOrder m ! 1,
           ''--boot3'', BootOrder m ! 2, ''--boot4'', BootOrder m ! 3]"
      by (simp add: boot_args_4 del: boot_args.simps)
  qed
  have few: "length (BootOrder m) \<le> 4 \<longrightarrow>
        boot_args 0 (BootOrder m) =
          concat (map (\<lambda>k. [boot_slots ! k, BootOrder m ! k])
                   [0..<length (BootOrder m)])"
  proof
    assume "length (BootOrder m) \<le> 4"
    then have "min 4 (length (BootOrder m)) = length (BootOrder m)" by simp
    with boot_args_slots [of "BootOrder m"]
    show "boot_args 0 (BootOrder m) =
          concat (map (\<lambda>k. [boot_slots ! k, BootOrder m ! k])
                   [0..<length (BootOrder m)])"
      by simp
  qed
  have cut: "boot_args 0 (BootOrder m) = boot_args 0 (take 4 (BootOrder m))"
    by (rule boot_args_take)
  have cmd: "\<forall>r m' s'. Machine_Modify env m s = (r, m', s') \<longrightarrow>
         (\<exists>evs. trace s' = trace s @ Cmd (Modify_args m) # evs)"
    using Modify_adds by blast
  from args many few cut cmd show ?thesis by (intro conjI)
qed

theorem Modify_boot_order_witness:
  "Modify_args (demo_machine Running\<lparr>BootOrder := [''disk'', ''dvd'', ''net'', ''floppy'', ''none'']\<rparr>)
     = Modify_settings (demo_machine Running\<lparr>BootOrder := [''disk'', ''dvd'', ''net'', ''floppy'', ''none'']\<rparr>)
       @ [''--boot1'', ''disk'', ''--boot2'', ''dvd'', ''--boot3'', ''net'', ''--boot4'', ''floppy'']
   \<and> Modify_args (demo_machine Running\<lparr>BootOrder := [''net'', ''disk'']\<rparr>)
     = Modify_settings (demo_machine Running\<lparr>BootOrder := [''net'', ''disk'']\<rparr>)
       @ [''--boot1'', ''net'', ''--boot2'', ''disk'']"
proof -
  let ?m5 = "demo_machine Running\<lparr>BootOrder := [''disk'', ''dvd'', ''net'', ''floppy'', ''none'']\<rparr>"
  let ?m2 = "demo_machine Running\<lparr>BootOrder := [''net'', ''disk'']\<rparr>"
  have two: "[0..<2] = [0, 1]" by (simp add: upt_rec)
  from Modify_boot_order [of ?m5 "scripted (steady Running)" sys0]
  have "Modify_args ?m5 = Modify_settings ?m5
       @ [''--boot1'', ''disk'', ''--boot2'', ''dvd'', ''--boot3'', ''net'', ''--boot4'', ''floppy'']"
    by simp
  moreover
  from Modify_boot_order [of ?m2 "scripted (steady Running)" sys0]
  have "Modify_args ?m2 = Modify_settings ?m2 @ [''--boot1'', ''net'', ''--boot2'', ''disk'']"
    by (simp add: two boot_slots_def)
  ultimately show ?thesis by blast
qed

end
